theory Spec2Isabelle
  imports Complex_Main "HOL-Library.Sublist"
begin

section \<open>TM38 slab thickness calculators\<close>

text \<open>
  The repository holds two calculators for concrete ground slabs after CCANZ TM38:
  the rack/wheel calculator (\<^verbatim>\<open>BackToBackRackCalculator.tsx\<close>, the functions
  \<^verbatim>\<open>calculateL\<close>, \<^verbatim>\<open>calculateB\<close>, the three single-load stresses,
  \<^verbatim>\<open>interpolate\<close>, \<^verbatim>\<open>calculateTotalFactoredStress\<close>, \<^verbatim>\<open>findMinThickness\<close>,
  \<^verbatim>\<open>criticalLoadCase\<close>) and the point-load calculator
  (\<^verbatim>\<open>ConcretePointLoadCalculator.tsx\<close>).

  Numbers. A JavaScript number is modelled as a \<^typ>\<open>real\<close>: rounding, overflow and
  NaN are not part of the model. Where the source can produce a value that is not a
  real number and a result depends on it, the value is written out: the quotient
  \<^verbatim>\<open>d.dist / l\<close> with \<^verbatim>\<open>l = 0\<close> is \<^verbatim>\<open>Infinity\<close> (type \<open>ratio\<close>), and
  the NaN that \<^verbatim>\<open>parseFloat\<close> gives for a string that is no number is \<open>None\<close>.
  \<^verbatim>\<open>Math.pow(x, a)\<close> on a positive \<open>x\<close> is \<open>x powr a\<close>, \<^verbatim>\<open>Math.log\<close> is
  \<open>ln\<close> and \<^verbatim>\<open>Math.log10\<close> is \<open>log 10\<close>.
\<close>

subsection \<open>Rack and wheel calculator: constants and material\<close>

definition POISSON_RATIO :: real where
  "POISSON_RATIO = 0.15"

definition LOAD_FACTOR :: real where
  "LOAD_FACTOR = 1.5"

text \<open>\<^verbatim>\<open>loadCase.includes('edge')\<close>: the argument occurs as a contiguous substring.\<close>

definition str_includes :: "string \<Rightarrow> string \<Rightarrow> bool" where
  "str_includes s sub = sublist sub s"

definition calculateModifiedK :: "real \<Rightarrow> real \<Rightarrow> real" where
  "calculateModifiedK k_subgrade subbase_thickness =
     (if subbase_thickness \<le> 0 then k_subgrade
      else if k_subgrade \<le> 0 then 0
      else let term1 = subbase_thickness * (0.0612 * ln k_subgrade - 0.1029);
               term2 = (0.8752 * k_subgrade) - 1.453
           in term1 + term2)"

definition calculateEc :: "real \<Rightarrow> real" where
  "calculateEc fc = (if fc > 0 then 3320 * sqrt fc + 6900 else 0)"

definition getK1 :: "real \<Rightarrow> real" where
  "getK1 days = (if days \<ge> 90 then 1.1 else 1.0)"

text \<open>
  \<^verbatim>\<open>getK2\<close> takes the repetitions as the string of the form field and parses it.
  \<^verbatim>\<open>parseFloat\<close> is a builtin of the language: it is a parameter of the model,
  giving \<open>None\<close> where the builtin gives NaN (as for the option \<^verbatim>\<open>'< 8000'\<close>).
\<close>

definition getK2 :: "(string \<Rightarrow> real option) \<Rightarrow> string \<Rightarrow> real" where
  "getK2 parseFloat repetitionsStr =
     (case parseFloat repetitionsStr of
        None \<Rightarrow> 1.0
      | Some repetitions \<Rightarrow>
          if repetitions < 8000 then 1.0
          else if repetitionsStr = ''Unlimited'' then 0.75
          else if repetitions \<ge> 8000 \<and> repetitions \<le> 400000 then
            (let k2_calculated = 1.5 * (0.73 - 0.0846 * (log 10 repetitions - 3))
             in max 0.75 (min 1.0 k2_calculated))
          else if repetitions > 400000 then 0.77
          else 1.0)"

text \<open>
  The residual post-tension stress is taken as the number it parses to.
  \<^verbatim>\<open>!fc\<close> on a number is \<open>fc = 0\<close>.
\<close>

definition calculateAllowableStress ::
  "(string \<Rightarrow> real option) \<Rightarrow> real \<Rightarrow> real \<Rightarrow> string \<Rightarrow> real \<Rightarrow> real" where
  "calculateAllowableStress parseFloat fc days repetitions postTensionStress =
     (if fc = 0 \<or> fc \<le> 0 then 0
      else let baseFr = 0.456 * getK1 days * getK2 parseFloat repetitions * (fc powr 0.66)
           in baseFr + postTensionStress)"

definition calculateL :: "real \<Rightarrow> real \<Rightarrow> real \<Rightarrow> real" where
  "calculateL Ec h k =
     (if Ec = 0 \<or> Ec \<le> 0 \<or> h = 0 \<or> h \<le> 0 \<or> k = 0 \<or> k \<le> 0 then 0
      else let numerator = Ec * h ^ 3 * 1000;
               denominator = 12 * (1 - POISSON_RATIO ^ 2) * k
           in (numerator / denominator) powr 0.25)"

definition calculateB :: "real \<Rightarrow> real \<Rightarrow> real" where
  "calculateB r h =
     (if r = 0 \<or> h = 0 then 0
      else if r \<ge> 1.72 * h then r
      else sqrt (1.6 * r * r + h * h) - 0.675 * h)"

subsection \<open>Rack and wheel calculator: stress under a single load\<close>

definition calculateSingleInteriorStress :: "real \<Rightarrow> real \<Rightarrow> real \<Rightarrow> real \<Rightarrow> real" where
  "calculateSingleInteriorStress P_tonnes h l b =
     (if h \<le> 0 \<or> l \<le> 0 \<or> b \<le> 0 then 0
      else let P_N = P_tonnes * 9810;
               stress = (0.275 * (1 + POISSON_RATIO) * P_N / (h * h)) * ln (l / b)
           in if stress > 0 then stress else 0)"

definition calculateSingleEdgeStress ::
  "real \<Rightarrow> real \<Rightarrow> real \<Rightarrow> real \<Rightarrow> string \<Rightarrow> real" where
  "calculateSingleEdgeStress P_tonnes h l b jointType =
     (if h \<le> 0 \<or> l \<le> 0 \<or> b \<le> 0 then 0
      else let P_N = P_tonnes * 9810;
               stress0 = (0.529 * (1 + 0.54 * POISSON_RATIO) * P_N / (h * h)) * ln (l / b);
               stress = (if jointType \<noteq> ''No Load Transfer'' then stress0 * 0.85 else stress0)
           in if stress > 0 then stress else 0)"

definition calculateSingleCornerStress ::
  "real \<Rightarrow> real \<Rightarrow> real \<Rightarrow> real \<Rightarrow> string \<Rightarrow> real" where
  "calculateSingleCornerStress P_tonnes h l r jointType =
     (if h \<le> 0 \<or> l \<le> 0 \<or> r \<le> 0 then 0
      else let P_N = P_tonnes * 9810;
               stress0 = (3 * P_N / (h * h)) * (1 - (r * sqrt 2 / l) powr 0.6);
               stress = (if jointType \<noteq> ''No Load Transfer'' then stress0 * 0.7 else stress0)
           in if stress > 0 then stress else 0)"

subsection \<open>Rack and wheel calculator: influence curves and superposition\<close>

text \<open>
  The argument of \<^verbatim>\<open>interpolate\<close> is the quotient \<^verbatim>\<open>d.dist / l\<close> of a positive
  distance. With \<^verbatim>\<open>l = 0\<close> (what \<^verbatim>\<open>calculateL\<close> returns on invalid input) the
  quotient is \<^verbatim>\<open>Infinity\<close>, which is larger than every breakpoint.
\<close>

datatype ratio = Finite real | Infinity

definition js_divide :: "real \<Rightarrow> real \<Rightarrow> ratio" where
  "js_divide d l = (if l = 0 then Infinity else Finite (d / l))"

definition ratio_le :: "ratio \<Rightarrow> real \<Rightarrow> bool" where
  "ratio_le x c = (case x of Finite v \<Rightarrow> v \<le> c | Infinity \<Rightarrow> False)"

definition ratio_ge :: "ratio \<Rightarrow> real \<Rightarrow> bool" where
  "ratio_ge x c = (case x of Finite v \<Rightarrow> v \<ge> c | Infinity \<Rightarrow> True)"

text \<open>
  Reading \<^verbatim>\<open>points[0][0]\<close> of an empty table throws a TypeError. A row
  \<^verbatim>\<open>[x, y]\<close> of a table is a pair.
\<close>

datatype error = TypeError

text \<open>The \<^verbatim>\<open>for\<close> loop of \<^verbatim>\<open>interpolate\<close>: the first bracket that holds \<open>x\<close>.\<close>

fun interpolate_loop :: "(real \<times> real) list \<Rightarrow> ratio \<Rightarrow> real option" where
  "interpolate_loop ((x1, y1) # (x2, y2) # ps) x =
     (if ratio_ge x x1 \<and> ratio_le x x2
      then (case x of Finite v \<Rightarrow> Some (y1 + (y2 - y1) * (v - x1) / (x2 - x1))
                    | Infinity \<Rightarrow> None)
      else interpolate_loop ((x2, y2) # ps) x)"
| "interpolate_loop ps x = None"

definition interpolate :: "(real \<times> real) list \<Rightarrow> ratio \<Rightarrow> error + real" where
  "interpolate points x =
     (case points of
        [] \<Rightarrow> Inl TypeError
      | p0 # rest \<Rightarrow>
          if ratio_le x (fst p0) then Inr (snd p0)
          else if ratio_ge x (fst (last points)) then Inr (snd (last points))
          else (case interpolate_loop points x of
                  Some v \<Rightarrow> Inr v
                | None \<Rightarrow> Inr (snd (last points))))"

definition interiorRadialPoints :: "(real \<times> real) list" where
  "interiorRadialPoints =
     [(0, 100), (0.5, 60), (1, 25), (1.5, 5), (2, -5), (3, -8), (4, -5), (5, -2), (6, 0)]"

definition interiorTangentialPoints :: "(real \<times> real) list" where
  "interiorTangentialPoints =
     [(0, 100), (0.5, 80), (1, 55), (1.5, 35), (2, 20), (3, 8), (4, 2), (5, 0), (6, 0)]"

definition edgeRadialPoints :: "(real \<times> real) list" where
  "edgeRadialPoints =
     [(0, 100), (0.5, 50), (1, 20), (1.5, 5), (2, -5), (3, -10), (4, -8), (5, -4), (6, 0)]"

definition scaleByInfluence :: "real \<Rightarrow> (real \<times> real) list \<Rightarrow> ratio \<Rightarrow> error + real" where
  "scaleByInfluence baseStress points distOverL =
     (case interpolate points distOverL of
        Inl e \<Rightarrow> Inl e
      | Inr v \<Rightarrow> Inr (baseStress * v / 100))"

definition getStressContribution :: "ratio \<Rightarrow> real \<Rightarrow> string \<Rightarrow> error + real" where
  "getStressContribution distOverL baseStress type =
     (if type = ''interior-radial'' then scaleByInfluence baseStress interiorRadialPoints distOverL
      else if type = ''interior-tangential''
        then scaleByInfluence baseStress interiorTangentialPoints distOverL
      else if type = ''edge-radial'' then scaleByInfluence baseStress edgeRadialPoints distOverL
      else Inr 0)"

text \<open>An entry \<^verbatim>\<open>{ dist, type }\<close> of a neighbour list.\<close>

record neighbour =
  dist :: real
  type :: string

text \<open>
  The body of \<^verbatim>\<open>distances.forEach\<close> in \<^verbatim>\<open>calculateTotalFactoredStress\<close>: the
  running \<^verbatim>\<open>totalUnfactoredStress\<close> after the neighbour \<open>d\<close>.
\<close>

definition addAdjacent ::
  "real \<Rightarrow> real \<Rightarrow> real \<Rightarrow> string \<Rightarrow> real \<Rightarrow> real \<Rightarrow> real \<Rightarrow> neighbour \<Rightarrow> error + real" where
  "addAdjacent P_tonnes_unfactored h l jointType r_int r_edge totalUnfactoredStress d =
     (if dist d > 0 then
        (let distOverL = js_divide (dist d) l;
             (adjacentStress, stressType) =
               (if type d = ''interior'' then
                  (let b_adj = calculateB r_int h
                   in (calculateSingleInteriorStress P_tonnes_unfactored h l b_adj,
                       ''interior-tangential''))
                else if str_includes (type d) ''edge'' then
                  (let b_adj = calculateB r_edge h
                   in (calculateSingleEdgeStress P_tonnes_unfactored h l b_adj jointType,
                       ''edge-radial''))
                else (0, ''''))
         in (case getStressContribution distOverL adjacentStress stressType of
               Inl e \<Rightarrow> Inl e
             | Inr c \<Rightarrow> Inr (totalUnfactoredStress + c)))
      else Inr totalUnfactoredStress)"

fun forEachDistance ::
  "real \<Rightarrow> real \<Rightarrow> real \<Rightarrow> string \<Rightarrow> real \<Rightarrow> real \<Rightarrow> real \<Rightarrow> neighbour list \<Rightarrow> error + real" where
  "forEachDistance P h l jointType r_int r_edge totalUnfactoredStress [] =
     Inr totalUnfactoredStress"
| "forEachDistance P h l jointType r_int r_edge totalUnfactoredStress (d # ds) =
     (case addAdjacent P h l jointType r_int r_edge totalUnfactoredStress d of
        Inl e \<Rightarrow> Inl e
      | Inr updated \<Rightarrow> forEachDistance P h l jointType r_int r_edge updated ds)"

definition calculateTotalFactoredStress ::
  "real \<Rightarrow> real \<Rightarrow> real \<Rightarrow> string \<Rightarrow> neighbour list \<Rightarrow> string \<Rightarrow> real \<Rightarrow> error + real" where
  "calculateTotalFactoredStress P_tonnes_unfactored h l jointType distances loadCase r_contact =
     (let r_int = r_contact;
          r_edge = r_contact * sqrt 2;
          baseStress =
            (if str_includes loadCase ''edge'' then
               (let b_base = calculateB r_edge h
                in calculateSingleEdgeStress P_tonnes_unfactored h l b_base jointType)
             else if loadCase = ''corner'' then
               calculateSingleCornerStress P_tonnes_unfactored h l r_int jointType
             else
               (let b_base = calculateB r_int h
                in calculateSingleInteriorStress P_tonnes_unfactored h l b_base))
      in (case forEachDistance P_tonnes_unfactored h l jointType r_int r_edge baseStress distances of
            Inl e \<Rightarrow> Inl e
          | Inr totalUnfactoredStress \<Rightarrow> Inr (totalUnfactoredStress * LOAD_FACTOR)))"

subsection \<open>Rack and wheel calculator: thickness search\<close>

text \<open>
  The result \<^verbatim>\<open>{ thickness, stress }\<close> of \<^verbatim>\<open>findMinThickness\<close>: the thickness is a
  number or the string \<^verbatim>\<open>'>800'\<close>, the stress a number or \<^verbatim>\<open>null\<close>.
\<close>

datatype thickness_value = ThicknessNum nat | ThicknessStr string

record min_thickness =
  thickness :: thickness_value
  stress :: "real option"

function findMinThickness_while ::
  "string \<Rightarrow> real \<Rightarrow> real \<Rightarrow> real \<Rightarrow> real \<Rightarrow> string \<Rightarrow> neighbour list \<Rightarrow> real \<Rightarrow> nat
   \<Rightarrow> error + min_thickness" where
  "findMinThickness_while loadCase allowableStress Ec k P_tonnes_unfactored jointType distances
       r_contact h =
     (if h \<le> 800 then
        (let l = calculateL Ec (real h) k
         in (case calculateTotalFactoredStress P_tonnes_unfactored (real h) l jointType distances
                    loadCase r_contact of
               Inl e \<Rightarrow> Inl e
             | Inr factoredStress \<Rightarrow>
                 if factoredStress \<le> allowableStress
                 then Inr \<lparr>thickness = ThicknessNum h, stress = Some factoredStress\<rparr>
                 else findMinThickness_while loadCase allowableStress Ec k P_tonnes_unfactored
                        jointType distances r_contact (h + 1)))
      else Inr \<lparr>thickness = ThicknessStr ''>800'', stress = None\<rparr>)"
  by pat_completeness auto
termination
  by (relation "measure (\<lambda>(loadCase, allowableStress, Ec, k, P, jointType, distances, r_contact, h).
        801 - h)") auto

declare findMinThickness_while.simps [simp del]

definition findMinThickness ::
  "string \<Rightarrow> real \<Rightarrow> real \<Rightarrow> real \<Rightarrow> real \<Rightarrow> string \<Rightarrow> neighbour list \<Rightarrow> real
   \<Rightarrow> error + min_thickness" where
  "findMinThickness loadCase allowableStress Ec k P_tonnes_unfactored jointType distances r_contact =
     findMinThickness_while loadCase allowableStress Ec k P_tonnes_unfactored jointType distances
       r_contact 100"

subsection \<open>Rack and wheel calculator: the critical load case\<close>

text \<open>
  \<^verbatim>\<open>outputs\<close> maps a case name to the result of its search extended by
  \<^verbatim>\<open>ultimateStrength\<close>. \<^verbatim>\<open>Object.entries\<close> lists the entries in the order the
  keys were added, so the object is a list of pairs, in that order.
\<close>

record rack_output = min_thickness +
  ultimateStrength :: real

text \<open>The truth value of \<^verbatim>\<open>val.thickness\<close>: a number other than 0, a string other than \<^verbatim>\<open>''\<close>.\<close>

definition truthy :: "thickness_value \<Rightarrow> bool" where
  "truthy t = (case t of ThicknessNum n \<Rightarrow> n \<noteq> 0 | ThicknessStr s \<Rightarrow> s \<noteq> [])"

text \<open>\<^verbatim>\<open>parseFloat(val.thickness)\<close>: a number is read back as itself, a string is parsed.\<close>

definition parseThickness :: "(string \<Rightarrow> real option) \<Rightarrow> thickness_value \<Rightarrow> real option" where
  "parseThickness parseFloat t =
     (case t of ThicknessNum n \<Rightarrow> Some (real n) | ThicknessStr s \<Rightarrow> parseFloat s)"

text \<open>The body of \<^verbatim>\<open>results.forEach\<close> on the pair \<^verbatim>\<open>(maxThickness, criticalCaseName)\<close>.\<close>

definition criticalLoadCase_step ::
  "(string \<Rightarrow> real option) \<Rightarrow> real \<times> string option \<Rightarrow> string \<times> rack_output
   \<Rightarrow> real \<times> string option" where
  "criticalLoadCase_step parseFloat acc entry =
     (case acc of (maxThickness, criticalCaseName) \<Rightarrow>
      case entry of (key, val) \<Rightarrow>
        (case parseThickness parseFloat (thickness val) of
           None \<Rightarrow> (maxThickness, criticalCaseName)
         | Some t \<Rightarrow>
             if t > maxThickness then (t, Some key) else (maxThickness, criticalCaseName)))"

definition criticalLoadCase ::
  "(string \<Rightarrow> real option) \<Rightarrow> (string \<times> rack_output) list \<Rightarrow> string option" where
  "criticalLoadCase parseFloat outputs =
     (let results = filter (\<lambda>(key, val). truthy (thickness val)) outputs
      in if length results = 0 then None
         else snd (foldl (criticalLoadCase_step parseFloat) (0, None) results))"

subsection \<open>Point-load calculator\<close>

text \<open>
  The parts of \<^verbatim>\<open>ConcretePointLoadCalculator.tsx\<close> that work on finite numbers
  only: the fatigue table, the sub-base enhancement and the design summary.
\<close>

text \<open>The local \<^verbatim>\<open>k2\<close> of \<^verbatim>\<open>calculateModulusOfRupture\<close>.\<close>

definition calculateModulusOfRupture_k2 :: "real \<Rightarrow> real" where
  "calculateModulusOfRupture_k2 repetitions =
     (if repetitions \<ge> 400000 then 0.77
      else if repetitions \<ge> 300000 then 0.78
      else if repetitions \<ge> 200000 then 0.81
      else if repetitions \<ge> 100000 then 0.84
      else if repetitions \<ge> 50000 then 0.89
      else if repetitions \<ge> 30000 then 0.90
      else if repetitions \<ge> 10000 then 0.96
      else 1.0)"

text \<open>The interface \<^verbatim>\<open>Inputs\<close> (the state of the form).\<close>

record Inputs =
  groundAssessmentType :: string
  cbrValue :: real
  scalaValue :: string
  hasSubbase :: bool
  subbaseThickness :: real
  concreteStrength :: real
  isPrestressed :: bool
  residualStrength :: real
  assessmentAge :: real
  jointType :: string
  loadPosition :: string
  rackSpacingX :: real
  rackSpacingY :: real
  baseplateX :: real
  baseplateY :: real
  wheelLoading :: real
  loadRepetitions :: real
  isBackToBack :: bool
  backToBackSpacing :: real

text \<open>
  The interface \<^verbatim>\<open>CalculationResult\<close>; its fields \<^verbatim>\<open>stress\<close> and
  \<^verbatim>\<open>thickness\<close> carry a prime here.
\<close>

record CalculationResult =
  equivalentRadius :: real
  radiusOfStiffness :: real
  stress' :: real
  thickness' :: nat
  isAdequate :: bool

definition enhanceModulusForSubbase :: "Inputs \<Rightarrow> real \<Rightarrow> real \<Rightarrow> real" where
  "enhanceModulusForSubbase inputs k t =
     (if \<not> hasSubbase inputs \<or> t < 100 then k
      else let enhancement = 1 + (t / 300) * 0.5
           in min (k * enhancement) (k * 2))"

text \<open>The state \<^verbatim>\<open>results\<close> and the two lines of the design summary.\<close>

record Results =
  modulus_of :: real
  allowableStress_of :: real
  interior :: CalculationResult
  edge :: CalculationResult
  corner :: CalculationResult

definition recommendedMinimumThickness :: "Results \<Rightarrow> nat" where
  "recommendedMinimumThickness results =
     max (thickness' (interior results))
         (max (thickness' (edge results)) (thickness' (corner results)))"

definition governedBy :: "Results \<Rightarrow> string" where
  "governedBy results =
     (if thickness' (corner results) \<ge> thickness' (edge results) \<and>
         thickness' (corner results) \<ge> thickness' (interior results) then ''Corner Loading''
      else if thickness' (edge results) \<ge> thickness' (interior results) then ''Edge Loading''
      else ''Interior Loading'')"

section \<open>Properties\<close>

text \<open>
  C8. For every contact radius \<open>r > 0\<close> and slab thickness \<open>h > 0\<close>, the equivalent contact
  radius \<^verbatim>\<open>calculateB\<close> is \<open>r\<close> when \<open>r \<ge> 1.72 h\<close>, and
  \<open>sqrt (1.6 r\<^sup>2 + h\<^sup>2) - 0.675 h\<close> otherwise; the threshold is exactly \<open>1.72 h\<close>.
\<close>

theorem calculateB_branches:
  assumes "r > 0" and "h > 0"
  shows "(r \<ge> 1.72 * h \<longrightarrow> calculateB r h = r) \<and>
         (r < 1.72 * h \<longrightarrow> calculateB r h = sqrt (1.6 * r\<^sup>2 + h\<^sup>2) - 0.675 * h)"
  using assms by (simp add: calculateB_def power2_eq_square)

theorem calculateB_branches_witness:
  "(172::real) > 0 \<and> (100::real) > 0 \<and> (43::real) > 0 \<and>
   calculateB 172 100 = 172 \<and>
   calculateB 43 100 = sqrt (1.6 * 43\<^sup>2 + 100\<^sup>2) - 0.675 * 100"
  using calculateB_branches [of 172 100] calculateB_branches [of 43 100] by simp

text \<open>
  C9. For every load and joint type, when the thickness \<open>h\<close>, the radius of relative
  stiffness \<open>l\<close> or the contact radius is zero or negative, the interior, edge and corner
  stress functions return 0.
\<close>

theorem degenerate_geometry_stress_zero:
  assumes "h \<le> 0 \<or> l \<le> 0 \<or> b \<le> 0"
  shows "calculateSingleInteriorStress P h l b = 0 \<and>
         calculateSingleEdgeStress P h l b jt = 0 \<and>
         calculateSingleCornerStress P h l b jt = 0"
  using assms
  by (auto simp: calculateSingleInteriorStress_def calculateSingleEdgeStress_def
      calculateSingleCornerStress_def)

theorem degenerate_geometry_stress_zero_witness:
  "((150::real) \<le> 0 \<or> (0::real) \<le> 0 \<or> (70::real) \<le> 0) \<and>
   calculateSingleInteriorStress 6 150 0 70 = 0 \<and>
   calculateSingleEdgeStress 6 150 0 70 ''Dowel Joints'' = 0 \<and>
   calculateSingleCornerStress 6 150 0 70 ''Dowel Joints'' = 0"
  using degenerate_geometry_stress_zero [of 150 0 70 6 "''Dowel Joints''"] by simp


subsection \<open>Interpolation over an influence curve\<close>

lemma interpolate_loop_bracket:
  assumes "sorted_wrt (<) (map fst ps)" and "Suc i < length ps"
    and "fst (ps ! i) \<le> v" and "v \<le> fst (ps ! Suc i)"
  shows "interpolate_loop ps (Finite v) =
           Some (snd (ps ! i) + (snd (ps ! Suc i) - snd (ps ! i)) * (v - fst (ps ! i))
                   / (fst (ps ! Suc i) - fst (ps ! i)))"
  using assms
proof (induction ps "Finite v" arbitrary: i rule: interpolate_loop.induct)
  case (1 x1 y1 x2 y2 ps)
  show ?case
  proof (cases i)
    case 0
    with "1.prems" show ?thesis by (simp add: ratio_ge_def ratio_le_def)
  next
    case (Suc j)
    let ?tl = "(x2, y2) # ps"
    from "1.prems" Suc have jlen: "Suc j < length ?tl" by simp
    from "1.prems" Suc have lo: "fst (?tl ! j) \<le> v" and hi: "v \<le> fst (?tl ! Suc j)" by simp_all
    from "1.prems" have srt: "sorted_wrt (<) (map fst ?tl)" and x12: "x1 < x2" by simp_all
    have tailgt: "x2 < fst (ps ! m)" if "m < length ps" for m
      using srt nth_mem [OF that] by auto
    have x2j: "x2 \<le> fst (?tl ! j)"
    proof (cases j)
      case 0 then show ?thesis by simp
    next
      case (Suc m)
      with jlen tailgt [of m] show ?thesis by simp
    qed
    show ?thesis
    proof (cases "v \<le> x2")
      case True
      with lo x2j have veq: "v = x2" and jeq: "fst (?tl ! j) = x2" by simp_all
      have "j = 0"
      proof (rule ccontr)
        assume "j \<noteq> 0"
        then obtain m where m: "j = Suc m" by (cases j) auto
        with jlen tailgt [of m] jeq show False by simp
      qed
      with Suc veq x12 show ?thesis by (simp add: ratio_ge_def ratio_le_def)
    next
      case False
      then have "interpolate_loop ((x1, y1) # ?tl) (Finite v) = interpolate_loop ?tl (Finite v)"
        by (simp add: ratio_ge_def ratio_le_def)
      also have "\<dots> = Some (snd (?tl ! j) + (snd (?tl ! Suc j) - snd (?tl ! j)) * (v - fst (?tl ! j))
                   / (fst (?tl ! Suc j) - fst (?tl ! j)))"
        using False "1.hyps"[OF _ srt jlen lo hi] by (simp add: ratio_ge_def ratio_le_def)
      finally show ?thesis using Suc by simp
    qed
  qed
qed simp_all

lemma breakpoints_strict:
  assumes "sorted_wrt (<) (map fst ps)" and "i < j" and "j < length ps"
  shows "fst (ps ! i) < fst (ps ! j)"
  using sorted_wrt_nth_less [OF assms(1), of i j] assms(2,3) by simp

lemma interpolate_between:
  assumes srt: "sorted_wrt (<) (map fst ps)" and len: "Suc i < length ps"
    and lo: "fst (ps ! i) \<le> v" and hi: "v \<le> fst (ps ! Suc i)"
  shows "interpolate ps (Finite v) =
           Inr (snd (ps ! i) + (snd (ps ! Suc i) - snd (ps ! i)) * (v - fst (ps ! i))
                  / (fst (ps ! Suc i) - fst (ps ! i)))"
proof -
  from len obtain p0 rest where ps: "ps = p0 # rest" by (cases ps) auto
  have step: "fst (ps ! i) < fst (ps ! Suc i)"
    using breakpoints_strict [OF srt _ len, of i] by simp
  have lastnth: "last ps = ps ! (length ps - 1)"
    using ps by (simp add: last_conv_nth)
  show ?thesis
  proof (cases "v \<le> fst p0")
    case True
    have "i = 0"
    proof (rule ccontr)
      assume "i \<noteq> 0"
      then have "fst (ps ! 0) < fst (ps ! i)"
        using breakpoints_strict [OF srt, of 0 i] len by simp
      with True lo ps show False by simp
    qed
    with True lo ps have "v = fst (ps ! i)" by simp
    with True ps \<open>i = 0\<close> show ?thesis by (simp add: interpolate_def ratio_le_def)
  next
    case notfirst: False
    show ?thesis
    proof (cases "v \<ge> fst (last ps)")
      case True
      have "Suc i = length ps - 1"
      proof (rule ccontr)
        assume "Suc i \<noteq> length ps - 1"
        with len have "Suc i < length ps - 1" by simp
        then have "fst (ps ! Suc i) < fst (ps ! (length ps - 1))"
          using breakpoints_strict [OF srt, of "Suc i" "length ps - 1"] len by simp
        with True hi lastnth show False by simp
      qed
      with True hi lastnth have veq: "v = fst (ps ! Suc i)" and l: "last ps = ps ! Suc i" by simp_all
      from notfirst True ps l step veq show ?thesis
        by (simp add: interpolate_def ratio_le_def ratio_ge_def)
    next
      case False
      with notfirst ps interpolate_loop_bracket [OF srt len lo hi] show ?thesis
        by (simp add: interpolate_def ratio_le_def ratio_ge_def)
    qed
  qed
qed

lemma interpolate_clamp_low:
  "ps \<noteq> [] \<Longrightarrow> v \<le> fst (hd ps) \<Longrightarrow> interpolate ps (Finite v) = Inr (snd (hd ps))"
  by (cases ps) (simp_all add: interpolate_def ratio_le_def)

lemma interpolate_clamp_high:
  "sorted_wrt (<) (map fst ps) \<Longrightarrow> ps \<noteq> [] \<Longrightarrow> v \<ge> fst (last ps) \<Longrightarrow> interpolate ps (Finite v) = Inr (snd (last ps))"
proof (cases ps)
  case Nil
  assume "ps \<noteq> []" with Nil show ?thesis by simp
next
  case (Cons p0 rest)
  assume srt: "sorted_wrt (<) (map fst ps)" and v: "v \<ge> fst (last ps)"
  show ?thesis
  proof (cases rest)
    case Nil
    with Cons v show ?thesis by (simp add: interpolate_def ratio_le_def ratio_ge_def)
  next
    case (Cons p1 rest')
    have "fst (ps ! 0) < fst (ps ! (length ps - 1))"
      using breakpoints_strict [OF srt, of 0 "length ps - 1"] \<open>ps = p0 # rest\<close> Cons by simp
    moreover have "last ps = ps ! (length ps - 1)"
      using \<open>ps = p0 # rest\<close> by (simp add: last_conv_nth)
    ultimately have "\<not> v \<le> fst p0" using v \<open>ps = p0 # rest\<close> by simp
    with v \<open>ps = p0 # rest\<close> show ?thesis
      by (simp add: interpolate_def ratio_le_def ratio_ge_def)
  qed
qed

lemma interpolate_Infinity:
  "ps \<noteq> [] \<Longrightarrow> interpolate ps Infinity = Inr (snd (last ps))"
  by (cases ps) (simp_all add: interpolate_def ratio_le_def ratio_ge_def)

lemma curves_sorted:
  "sorted_wrt (<) (map fst interiorRadialPoints)"
  "sorted_wrt (<) (map fst interiorTangentialPoints)"
  "sorted_wrt (<) (map fst edgeRadialPoints)"
  by (simp_all add: interiorRadialPoints_def interiorTangentialPoints_def edgeRadialPoints_def)

lemma curves_ends:
  "interiorRadialPoints \<noteq> []" "interiorTangentialPoints \<noteq> []" "edgeRadialPoints \<noteq> []"
  "hd interiorRadialPoints = (0, 100)" "hd interiorTangentialPoints = (0, 100)"
  "hd edgeRadialPoints = (0, 100)"
  "last interiorRadialPoints = (6, 0)" "last interiorTangentialPoints = (6, 0)"
  "last edgeRadialPoints = (6, 0)"
  by (simp_all add: interiorRadialPoints_def interiorTangentialPoints_def edgeRadialPoints_def)

text \<open>
  C4. For every influence curve and every distance ratio \<open>x\<close>: at or below the first
  breakpoint the interpolation returns the first table value (100 at ratio 0); at or beyond
  the last breakpoint it returns the last table value; between two consecutive breakpoints
  it returns the linear interpolation of the two bracketing table points.
\<close>

theorem interpolate_influence_curves:
  assumes "points \<in> {interiorRadialPoints, interiorTangentialPoints, edgeRadialPoints}"
  shows "hd points = (0, 100) \<and>
         (x \<le> fst (hd points) \<longrightarrow> interpolate points (Finite x) = Inr (snd (hd points))) \<and>
         (x \<ge> fst (last points) \<longrightarrow> interpolate points (Finite x) = Inr (snd (last points))) \<and>
         interpolate points Infinity = Inr (snd (last points)) \<and>
         (\<forall>i. Suc i < length points \<and> fst (points ! i) \<le> x \<and> x \<le> fst (points ! Suc i) \<longrightarrow>
              interpolate points (Finite x) =
                Inr (snd (points ! i) + (snd (points ! Suc i) - snd (points ! i)) * (x - fst (points ! i))
                       / (fst (points ! Suc i) - fst (points ! i))))"
proof -
  from assms have srt: "sorted_wrt (<) (map fst points)" and ne: "points \<noteq> []"
    and h: "hd points = (0, 100)"
    using curves_sorted curves_ends by auto
  show ?thesis
    using h interpolate_clamp_low [OF ne] interpolate_clamp_high [OF srt ne]
      interpolate_Infinity [OF ne] interpolate_between [OF srt]
    by blast
qed

theorem interpolate_influence_curves_witness:
  "interiorTangentialPoints \<in> {interiorRadialPoints, interiorTangentialPoints, edgeRadialPoints} \<and>
   interpolate interiorTangentialPoints (Finite 0) = Inr 100 \<and>
   interpolate interiorTangentialPoints (Finite 7) = Inr 0 \<and>
   interpolate interiorTangentialPoints (Finite 0.75) = Inr 67.5"
proof -
  have mem: "interiorTangentialPoints \<in> {interiorRadialPoints, interiorTangentialPoints, edgeRadialPoints}"
    by simp
  note c = interpolate_influence_curves [OF mem]
  from c [of 0] have a: "interpolate interiorTangentialPoints (Finite 0) = Inr 100"
    by (simp add: interiorTangentialPoints_def)
  from c [of 7] have b: "interpolate interiorTangentialPoints (Finite 7) = Inr 0"
    by (simp add: interiorTangentialPoints_def)
  from c [of "0.75"] have "Suc 1 < length interiorTangentialPoints \<and>
      fst (interiorTangentialPoints ! 1) \<le> 0.75 \<and> 0.75 \<le> fst (interiorTangentialPoints ! Suc 1) \<longrightarrow>
      interpolate interiorTangentialPoints (Finite 0.75) =
        Inr (snd (interiorTangentialPoints ! 1) +
             (snd (interiorTangentialPoints ! Suc 1) - snd (interiorTangentialPoints ! 1)) *
             (0.75 - fst (interiorTangentialPoints ! 1)) /
             (fst (interiorTangentialPoints ! Suc 1) - fst (interiorTangentialPoints ! 1)))"
    by blast
  then have d: "interpolate interiorTangentialPoints (Finite 0.75) = Inr 67.5"
    by (simp add: interiorTangentialPoints_def)
  from mem a b d show ?thesis by blast
qed

subsection \<open>Fatigue factor, sub-base enhancement, governing case\<close>

lemma log10_300000: "log 10 (300000::real) \<le> 5.5"
proof -
  have "(300000::real) ^ 2 \<le> 10 ^ 11" by simp
  then have "log 10 ((300000::real) ^ 2) \<le> log 10 (10 ^ 11)"
    by (intro iffD2 [OF log_le_cancel_iff]) simp_all
  moreover have "log 10 ((300000::real) ^ 2) = 2 * log 10 300000"
    using log_nat_power [of "300000::real" 10 2] by simp
  moreover have "log 10 ((10::real) ^ 11) = real 11"
    by (rule log_pow_cancel) simp_all
  ultimately have "2 * log 10 (300000::real) \<le> real 11" by (simp only:)
  then show ?thesis by simp
qed

lemma log10_400000: "log 10 (400000::real) \<ge> 5.6"
proof -
  have "(10::real) ^ 28 \<le> 400000 ^ 5" by simp
  then have "log 10 ((10::real) ^ 28) \<le> log 10 (400000 ^ 5)"
    by (intro iffD2 [OF log_le_cancel_iff]) simp_all
  moreover have "log 10 ((400000::real) ^ 5) = 5 * log 10 400000"
    using log_nat_power [of "400000::real" 10 5] by simp
  moreover have "log 10 ((10::real) ^ 28) = real 28"
    by (rule log_pow_cancel) simp_all
  ultimately have "real 28 \<le> 5 * log 10 (400000::real)" by (simp only:)
  then show ?thesis by simp
qed

lemma clamp_range: "0.75 \<le> max 0.75 (min 1 (f::real)) \<and> max 0.75 (min 1 f) \<le> 1"
  by (simp add: max_def min_def)

lemma clamp_mono: "(f::real) \<le> g \<Longrightarrow> max 0.75 (min 1 f) \<le> max 0.75 (min 1 g)"
  by (simp add: max_def min_def)

lemma getK2_range: "0.75 \<le> getK2 pf s \<and> getK2 pf s \<le> 1"
proof (cases "pf s")
  case None
  then show ?thesis by (simp add: getK2_def)
next
  case (Some r)
  have "getK2 pf s = 1 \<or> getK2 pf s = 0.75 \<or> getK2 pf s = 0.77 \<or>
        getK2 pf s = max 0.75 (min 1 (1.5 * (0.73 - 0.0846 * (log 10 r - 3))))"
    using Some by (simp add: getK2_def Let_def)
  with clamp_range [of "1.5 * (0.73 - 0.0846 * (log 10 r - 3))"] show ?thesis
    by auto
qed

lemma getK2_Some:
  assumes "pf ''Unlimited'' = None" and "pf s = Some r"
  shows "getK2 pf s = (if r < 8000 then 1 else if r \<le> 400000
           then max 0.75 (min 1 (1.5 * (0.73 - 0.0846 * (log 10 r - 3)))) else 0.77)"
proof -
  from assms have "s \<noteq> ''Unlimited''" by auto
  with assms(2) show ?thesis by (simp add: getK2_def Let_def)
qed

lemma getK2_mono:
  assumes u: "pf ''Unlimited'' = None" and p1: "pf s1 = Some r1" and p2: "pf s2 = Some r2"
    and le: "r1 \<le> r2" and b: "r2 \<le> 400000 \<or> r1 \<le> 300000"
  shows "getK2 pf s2 \<le> getK2 pf s1"
proof (cases "r1 < 8000")
  case True
  with getK2_Some [OF u p1] getK2_range [of pf s2] show ?thesis by simp
next
  case lo: False
  show ?thesis
  proof (cases "r2 \<le> 400000")
    case True
    from lo le have "log 10 r1 \<le> log 10 r2"
      by (intro iffD2 [OF log_le_cancel_iff]) simp_all
    then have "1.5 * (0.73 - 0.0846 * (log 10 r2 - 3)) \<le> 1.5 * (0.73 - 0.0846 * (log 10 r1 - 3))"
      by simp
    from clamp_mono [OF this] have
      "max 0.75 (min 1 (1.5 * (0.73 - 0.0846 * (log 10 r2 - 3))))
        \<le> max 0.75 (min 1 (1.5 * (0.73 - 0.0846 * (log 10 r1 - 3))))" .
    moreover from lo le True getK2_Some [OF u p1]
    have "getK2 pf s1 = max 0.75 (min 1 (1.5 * (0.73 - 0.0846 * (log 10 r1 - 3))))" by simp
    moreover from lo le True getK2_Some [OF u p2]
    have "getK2 pf s2 = max 0.75 (min 1 (1.5 * (0.73 - 0.0846 * (log 10 r2 - 3))))" by simp
    ultimately show ?thesis by simp
  next
    case False
    with b have r1: "r1 \<le> 300000" by simp
    with lo have "log 10 r1 \<le> log 10 300000"
      by (intro iffD2 [OF log_le_cancel_iff]) simp_all
    with log10_300000 have "log 10 r1 \<le> 5.5" by simp
    define f :: real where "f = 1.5 * (0.73 - 0.0846 * (log 10 r1 - 3))"
    from \<open>log 10 r1 \<le> 5.5\<close> have "0.77 \<le> f" unfolding f_def by (simp add: algebra_simps)
    then have "0.77 \<le> max 0.75 (min 1 f)"
      by (simp add: max_def min_def)
    moreover from lo r1 getK2_Some [OF u p1] have "getK2 pf s1 = max 0.75 (min 1 f)"
      unfolding f_def by simp
    moreover from False getK2_Some [OF u p2] have "getK2 pf s2 = 0.77" by simp
    ultimately show ?thesis by simp
  qed
qed

lemma getK2_top:
  assumes u: "pf ''Unlimited'' = None" and p: "pf s = Some r" and r: "r \<ge> 400000"
  shows "getK2 pf s \<le> 0.77"
proof (cases "r = 400000")
  case True
  define f :: real where "f = 1.5 * (0.73 - 0.0846 * (log 10 400000 - 3))"
  from log10_400000 have "f \<le> 0.77" unfolding f_def by (simp add: algebra_simps)
  then have "max 0.75 (min 1 f) \<le> 0.77"
    by (simp add: max_def min_def)
  moreover from True getK2_Some [OF u p] have "getK2 pf s = max 0.75 (min 1 f)"
    unfolding f_def by simp
  ultimately show ?thesis by simp
next
  case False
  with r getK2_Some [OF u p] show ?thesis by simp
qed

lemma k2_table_mono: "r1 \<le> r2 \<Longrightarrow> calculateModulusOfRupture_k2 r2 \<le> calculateModulusOfRupture_k2 r1"
  by (simp add: calculateModulusOfRupture_k2_def)

lemma k2_table_range: "0.77 \<le> calculateModulusOfRupture_k2 r \<and> calculateModulusOfRupture_k2 r \<le> 1"
  by (simp add: calculateModulusOfRupture_k2_def)

text \<open>
  C5. The fatigue factor \<open>k2\<close> is 1.0 for fewer than 8000 repetitions, does not increase
  as the repetitions increase across the buckets 8000, 10000, 30000, 50000, 100000, 200000,
  300000, 400000 and more, lies in \<open>[0.75, 1.0]\<close>, and is between 0.75 and 0.77 in the
  highest bucket. This holds of \<^verbatim>\<open>getK2\<close> (for a \<^verbatim>\<open>parseFloat\<close> that, like the
  builtin, reads no number from \<^verbatim>\<open>'Unlimited'\<close>) and of the step table in
  \<^verbatim>\<open>calculateModulusOfRupture\<close>. Two repetition counts \<open>r1 \<le> r2\<close> are compared when
  they are in different buckets or both at most 400000.
\<close>

theorem k2_fatigue_factor:
  assumes "parseFloat ''Unlimited'' = None"
  shows "(\<forall>s. parseFloat s = None \<longrightarrow> getK2 parseFloat s = 1) \<and>
         (\<forall>s r. parseFloat s = Some r \<and> r < 8000 \<longrightarrow> getK2 parseFloat s = 1) \<and>
         (\<forall>s. 0.75 \<le> getK2 parseFloat s \<and> getK2 parseFloat s \<le> 1) \<and>
         (\<forall>s1 s2 r1 r2. parseFloat s1 = Some r1 \<and> parseFloat s2 = Some r2 \<and> r1 \<le> r2 \<and>
              (r2 \<le> 400000 \<or> r1 \<le> 300000) \<longrightarrow>
              getK2 parseFloat s2 \<le> getK2 parseFloat s1) \<and>
         (\<forall>s r. parseFloat s = Some r \<and> 400000 \<le> r \<longrightarrow> getK2 parseFloat s \<le> 0.77) \<and>
         (\<forall>r. r < 8000 \<longrightarrow> calculateModulusOfRupture_k2 r = 1) \<and>
         (\<forall>r1 r2. r1 \<le> r2 \<longrightarrow>
              calculateModulusOfRupture_k2 r2 \<le> calculateModulusOfRupture_k2 r1) \<and>
         (\<forall>r. 0.75 \<le> calculateModulusOfRupture_k2 r \<and> calculateModulusOfRupture_k2 r \<le> 1) \<and>
         (\<forall>r. 400000 \<le> r \<longrightarrow> calculateModulusOfRupture_k2 r = 0.77)"
proof -
  have a: "\<forall>s. parseFloat s = None \<longrightarrow> getK2 parseFloat s = 1"
    by (simp add: getK2_def)
  have b: "\<forall>s r. parseFloat s = Some r \<and> r < 8000 \<longrightarrow> getK2 parseFloat s = 1"
    by (simp add: getK2_def)
  have c: "\<forall>s. 0.75 \<le> getK2 parseFloat s \<and> getK2 parseFloat s \<le> 1"
    using getK2_range by blast
  have d: "\<forall>s1 s2 r1 r2. parseFloat s1 = Some r1 \<and> parseFloat s2 = Some r2 \<and> r1 \<le> r2 \<and>
              (r2 \<le> 400000 \<or> r1 \<le> 300000) \<longrightarrow>
              getK2 parseFloat s2 \<le> getK2 parseFloat s1"
    using getK2_mono [of parseFloat, OF assms] by blast
  have e: "\<forall>s r. parseFloat s = Some r \<and> 400000 \<le> r \<longrightarrow> getK2 parseFloat s \<le> 0.77"
    using getK2_top [of parseFloat, OF assms] by blast
  have f: "\<forall>r. r < 8000 \<longrightarrow> calculateModulusOfRupture_k2 r = 1"
    by (simp add: calculateModulusOfRupture_k2_def)
  have g: "\<forall>r1 r2. r1 \<le> r2 \<longrightarrow>
              calculateModulusOfRupture_k2 r2 \<le> calculateModulusOfRupture_k2 r1"
    using k2_table_mono by blast
  have h: "\<forall>r. 0.75 \<le> calculateModulusOfRupture_k2 r \<and> calculateModulusOfRupture_k2 r \<le> 1"
    by (simp add: calculateModulusOfRupture_k2_def)
  have i: "\<forall>r. 400000 \<le> r \<longrightarrow> calculateModulusOfRupture_k2 r = 0.77"
    by (simp add: calculateModulusOfRupture_k2_def)
  from a b c d e f g h i show ?thesis by blast
qed

theorem k2_fatigue_factor_witness:
  "(\<lambda>s. if s = ''300000'' then Some 300000 else if s = ''400000'' then Some (400000::real)
         else None) ''Unlimited'' = None \<and>
   getK2 (\<lambda>s. if s = ''300000'' then Some 300000 else if s = ''400000'' then Some 400000
                else None) ''< 8000'' = 1 \<and>
   getK2 (\<lambda>s. if s = ''300000'' then Some 300000 else if s = ''400000'' then Some 400000
                else None) ''400000''
     \<le> getK2 (\<lambda>s. if s = ''300000'' then Some 300000 else if s = ''400000'' then Some 400000
                else None) ''300000'' \<and>
   getK2 (\<lambda>s. if s = ''300000'' then Some 300000 else if s = ''400000'' then Some 400000
                else None) ''400000'' \<le> 0.77 \<and>
   calculateModulusOfRupture_k2 400000 \<le> calculateModulusOfRupture_k2 300000"
proof -
  let ?pf = "\<lambda>s. if s = ''300000'' then Some 300000 else if s = ''400000'' then Some (400000::real)
                else None"
  have u: "?pf ''Unlimited'' = None" by simp
  note k = k2_fatigue_factor [of ?pf, OF u]
  have p3: "?pf ''300000'' = Some 300000" and p4: "?pf ''400000'' = Some 400000"
    and p0: "?pf ''< 8000'' = None" by simp_all
  from k p0 have a: "getK2 ?pf ''< 8000'' = 1" by blast
  from k have mono: "getK2 ?pf s2 \<le> getK2 ?pf s1"
    if "?pf s1 = Some r1" "?pf s2 = Some r2" "r1 \<le> r2" "r2 \<le> 400000 \<or> r1 \<le> 300000"
    for s1 s2 r1 r2
    using that by blast
  from k have top: "getK2 ?pf s \<le> 0.77" if "?pf s = Some r" "400000 \<le> r" for s r
    using that by blast
  from k have tab: "calculateModulusOfRupture_k2 r2 \<le> calculateModulusOfRupture_k2 r1"
    if "r1 \<le> r2" for r1 r2
    using that by blast
  from mono [OF p3 p4] have b: "getK2 ?pf ''400000'' \<le> getK2 ?pf ''300000''" by simp
  from top [OF p4] have c: "getK2 ?pf ''400000'' \<le> 0.77" by simp
  from tab [of 300000 400000]
  have d: "calculateModulusOfRupture_k2 400000 \<le> calculateModulusOfRupture_k2 300000" by simp
  from u a b c d show ?thesis by blast
qed

text \<open>
  C6, as amended. In the point-load calculator (\<^verbatim>\<open>enhanceModulusForSubbase\<close>, the
  capped multiplier), for every base modulus \<open>k > 0\<close> and every sub-base thickness the
  enhanced modulus is at most \<open>2 k\<close>, at least \<open>k\<close>, and equal to \<open>k\<close> when the thickness
  is below 100 mm.
\<close>

theorem enhanceModulusForSubbase_bounds:
  assumes "k > 0"
  shows "enhanceModulusForSubbase inputs k t \<le> 2 * k \<and>
         k \<le> enhanceModulusForSubbase inputs k t \<and>
         (t < 100 \<longrightarrow> enhanceModulusForSubbase inputs k t = k)"
proof -
  have "k \<le> k * (1 + t / 300 * 0.5)" if "100 \<le> t"
  proof -
    from that have "1 \<le> 1 + t / 300 * 0.5" by simp
    with assms show ?thesis by (simp add: mult_le_cancel_left1 del: distrib_left_numeral)
  qed
  with assms show ?thesis
    by (auto simp: enhanceModulusForSubbase_def Let_def min_def not_less)
qed

text \<open>
  C6 as stated fails for the rack calculator's \<^verbatim>\<open>calculateModifiedK\<close>, a regression in
  the thickness with no minimum thickness and no cap: with \<open>k = 54\<close> a sub-base of 10 mm
  gives less than \<open>k\<close>, and one of 10000 mm more than \<open>2 k\<close>.
\<close>

theorem calculateModifiedK_counterexample:
  "calculateModifiedK 54 10 < 54 \<and> 2 * 54 < calculateModifiedK 54 10000"
proof -
  have "ln (54::real) \<le> ln (2 ^ 6)" by (subst ln_le_cancel_iff) simp_all
  also have "\<dots> = 6 * ln 2" using ln_realpow [of "2::real" 6] by simp
  also have "\<dots> \<le> 6" using ln_le_minus_one [of "2::real"] by simp
  finally have up: "ln (54::real) \<le> 6" .
  have "exp (2::real) = exp 1 * exp 1" by (simp flip: exp_add)
  also have "\<dots> \<le> 3 * 3" by (intro mult_mono exp_le) simp_all
  finally have "exp (2::real) \<le> 54" by simp
  then have lo: "2 \<le> ln (54::real)" by (subst ln_ge_iff) simp_all
  from up have "calculateModifiedK 54 10 < 54"
    by (simp add: calculateModifiedK_def Let_def algebra_simps)
  moreover from lo have "2 * 54 < calculateModifiedK 54 10000"
    by (simp add: calculateModifiedK_def Let_def algebra_simps)
  ultimately show ?thesis by blast
qed

theorem enhanceModulusForSubbase_bounds_witness:
  "(54::real) > 0 \<and>
   enhanceModulusForSubbase
     \<lparr>groundAssessmentType = ''cbr'', cbrValue = 10, scalaValue = '''', hasSubbase = True,
      subbaseThickness = 150, concreteStrength = 32, isPrestressed = False,
      residualStrength = 0.5, assessmentAge = 28, jointType = ''dowel'',
      loadPosition = ''interior'', rackSpacingX = 1.0, rackSpacingY = 0.8, baseplateX = 50,
      baseplateY = 50, wheelLoading = 1, loadRepetitions = 8000, isBackToBack = False,
      backToBackSpacing = 0.1\<rparr> 54 150 = 67.5 \<and>
   enhanceModulusForSubbase
     \<lparr>groundAssessmentType = ''cbr'', cbrValue = 10, scalaValue = '''', hasSubbase = True,
      subbaseThickness = 150, concreteStrength = 32, isPrestressed = False,
      residualStrength = 0.5, assessmentAge = 28, jointType = ''dowel'',
      loadPosition = ''interior'', rackSpacingX = 1.0, rackSpacingY = 0.8, baseplateX = 50,
      baseplateY = 50, wheelLoading = 1, loadRepetitions = 8000, isBackToBack = False,
      backToBackSpacing = 0.1\<rparr> 54 50 = 54"
proof -
  let ?i = "\<lparr>groundAssessmentType = ''cbr'', cbrValue = 10, scalaValue = '''', hasSubbase = True,
      subbaseThickness = 150, concreteStrength = 32, isPrestressed = False,
      residualStrength = 0.5, assessmentAge = 28, jointType = ''dowel'',
      loadPosition = ''interior'', rackSpacingX = 1.0, rackSpacingY = 0.8, baseplateX = 50,
      baseplateY = 50, wheelLoading = 1, loadRepetitions = 8000, isBackToBack = False,
      backToBackSpacing = 0.1\<rparr>"
  have pos: "(54::real) > 0" by simp
  from enhanceModulusForSubbase_bounds [OF pos, of ?i 50]
  have a: "enhanceModulusForSubbase ?i 54 50 = 54" by simp
  from enhanceModulusForSubbase_bounds [OF pos, of ?i 150]
  have b: "enhanceModulusForSubbase ?i 54 150 = 67.5"
    by (simp add: enhanceModulusForSubbase_def)
  from pos a b show ?thesis by blast
qed

lemma criticalLoadCase_foldl:
  assumes "xs \<noteq> []"
    and "\<forall>j<length xs. thickness (snd (xs ! j)) = ThicknessNum (t j) \<and> 0 < t j"
  shows "\<exists>i<length xs.
           foldl (criticalLoadCase_step pf) (0, None) xs = (real (t i), Some (fst (xs ! i))) \<and>
           (\<forall>j<length xs. t j \<le> t i) \<and> (\<forall>j<i. t j < t i)"
  using assms
proof (induction xs rule: rev_nonempty_induct)
  case (single x)
  then have "thickness (snd x) = ThicknessNum (t 0)" and "0 < t 0" by simp_all
  then have "foldl (criticalLoadCase_step pf) (0, None) [x] = (real (t 0), Some (fst x))"
    by (cases x) (simp add: criticalLoadCase_step_def parseThickness_def)
  then show ?case by simp
next
  case (snoc x xs)
  let ?n = "length xs"
  from snoc.prems have pre: "\<forall>j<length xs. thickness (snd (xs ! j)) = ThicknessNum (t j) \<and> 0 < t j"
    by (auto simp: nth_append split: if_splits)
  from snoc.prems have xn: "thickness (snd x) = ThicknessNum (t ?n)"
    by (auto simp: nth_append dest: spec [of _ ?n])
  from snoc.IH [OF pre] obtain i where i: "i < length xs"
    and f: "foldl (criticalLoadCase_step pf) (0, None) xs = (real (t i), Some (fst (xs ! i)))"
    and mx: "\<forall>j<length xs. t j \<le> t i" and fst: "\<forall>j<i. t j < t i"
    by blast
  show ?case
  proof (cases "t i < t ?n")
    case True
    with f xn have "foldl (criticalLoadCase_step pf) (0, None) (xs @ [x])
        = (real (t ?n), Some (fst ((xs @ [x]) ! ?n)))"
      by (cases x) (simp add: criticalLoadCase_step_def parseThickness_def)
    moreover have "\<forall>j<length (xs @ [x]). t j \<le> t ?n"
    proof (intro allI impI)
      fix j assume "j < length (xs @ [x])"
      then have "j < ?n \<or> j = ?n" by auto
      then show "t j \<le> t ?n"
      proof
        assume "j < ?n"
        with mx have "t j \<le> t i" by blast
        with True show ?thesis by simp
      qed simp
    qed
    moreover have "\<forall>j<?n. t j < t ?n"
    proof (intro allI impI)
      fix j assume "j < ?n"
      with mx have "t j \<le> t i" by blast
      with True show "t j < t ?n" by simp
    qed
    ultimately show ?thesis by (intro exI [of _ ?n]) simp
  next
    case False
    with f xn i have "foldl (criticalLoadCase_step pf) (0, None) (xs @ [x])
        = (real (t i), Some (fst ((xs @ [x]) ! i)))"
      by (cases x) (simp add: criticalLoadCase_step_def parseThickness_def nth_append)
    moreover from False mx have "\<forall>j<length (xs @ [x]). t j \<le> t i"
      by (auto simp: less_Suc_eq)
    ultimately show ?thesis using i fst by (intro exI [of _ i]) simp
  qed
qed

lemma criticalLoadCase_numeric:
  assumes ne: "outputs \<noteq> []"
    and num: "\<forall>j<length outputs. thickness (snd (outputs ! j)) = ThicknessNum (t j) \<and> 0 < t j"
  shows "\<exists>i<length outputs. criticalLoadCase pf outputs = Some (fst (outputs ! i)) \<and>
           (\<forall>j<length outputs. t j \<le> t i) \<and> (\<forall>j<i. t j < t i)"
proof -
  have "truthy (thickness (snd e))" if "e \<in> set outputs" for e
  proof -
    from that obtain j where "j < length outputs" "outputs ! j = e"
      by (auto simp: in_set_conv_nth)
    with num show ?thesis by (auto simp: truthy_def)
  qed
  then have "filter (\<lambda>(key, val). truthy (thickness val)) outputs = outputs"
    by (auto simp: filter_id_conv)
  with ne have "criticalLoadCase pf outputs
      = snd (foldl (criticalLoadCase_step pf) (0, None) outputs)"
    by (simp add: criticalLoadCase_def)
  with criticalLoadCase_foldl [OF ne num, of pf] show ?thesis by auto
qed

text \<open>
  C7, as amended. In the point-load calculator the governing case has the maximum
  thickness, and among cases at the maximum the corner comes before the edge and the edge
  before the interior. In the rack and wheel calculators, when every case has a numeric
  thickness, \<^verbatim>\<open>criticalLoadCase\<close> is a case of maximum thickness, and among cases at
  the maximum the one stored first (the interior case is stored first, the corner last).
\<close>

theorem governing_case:
  "(governedBy res = ''Corner Loading'' \<longleftrightarrow>
      thickness' (corner res) = recommendedMinimumThickness res) \<and>
   (governedBy res = ''Edge Loading'' \<longleftrightarrow>
      thickness' (edge res) = recommendedMinimumThickness res \<and>
      thickness' (corner res) < recommendedMinimumThickness res) \<and>
   (governedBy res = ''Interior Loading'' \<longleftrightarrow>
      thickness' (interior res) = recommendedMinimumThickness res \<and>
      thickness' (edge res) < recommendedMinimumThickness res \<and>
      thickness' (corner res) < recommendedMinimumThickness res) \<and>
   (outputs \<noteq> [] \<and>
    (\<forall>j<length outputs. thickness (snd (outputs ! j)) = ThicknessNum (t j) \<and> 0 < t j) \<longrightarrow>
    (\<exists>i<length outputs. criticalLoadCase parseFloat outputs = Some (fst (outputs ! i)) \<and>
       (\<forall>j<length outputs. t j \<le> t i) \<and> (\<forall>j<i. t j < t i)))"
proof -
  have a: "governedBy res = ''Corner Loading'' \<longleftrightarrow>
      thickness' (corner res) = recommendedMinimumThickness res"
    by (auto simp: governedBy_def recommendedMinimumThickness_def max_def)
  have b: "governedBy res = ''Edge Loading'' \<longleftrightarrow>
      thickness' (edge res) = recommendedMinimumThickness res \<and>
      thickness' (corner res) < recommendedMinimumThickness res"
    by (auto simp: governedBy_def recommendedMinimumThickness_def max_def)
  have c: "governedBy res = ''Interior Loading'' \<longleftrightarrow>
      thickness' (interior res) = recommendedMinimumThickness res \<and>
      thickness' (edge res) < recommendedMinimumThickness res \<and>
      thickness' (corner res) < recommendedMinimumThickness res"
    by (auto simp: governedBy_def recommendedMinimumThickness_def max_def)
  from a b c criticalLoadCase_numeric [of outputs t parseFloat] show ?thesis by blast
qed

text \<open>
  C7 as stated fails for \<^verbatim>\<open>criticalLoadCase\<close>: when interior, edge and corner tie at
  150 mm, the critical case is the interior one, not the corner.
\<close>

theorem criticalLoadCase_tie_counterexample:
  "criticalLoadCase (\<lambda>s. None)
     [(''interior'', \<lparr>thickness = ThicknessNum 150, stress = Some 3, ultimateStrength = 4\<rparr>),
      (''edge'', \<lparr>thickness = ThicknessNum 150, stress = Some 3.5, ultimateStrength = 4\<rparr>),
      (''corner'', \<lparr>thickness = ThicknessNum 150, stress = Some 3.9, ultimateStrength = 4\<rparr>)]
   = Some ''interior''"
  by (simp add: criticalLoadCase_def criticalLoadCase_step_def parseThickness_def truthy_def)


theorem governing_case_witness:
  "governedBy
     \<lparr>modulus_of = 54, allowableStress_of = 4000,
      interior = \<lparr>equivalentRadius = 0.03, radiusOfStiffness = 0.6, stress' = 3900,
                  thickness' = 150, isAdequate = True\<rparr>,
      edge = \<lparr>equivalentRadius = 0.03, radiusOfStiffness = 0.7, stress' = 3900,
              thickness' = 175, isAdequate = True\<rparr>,
      corner = \<lparr>equivalentRadius = 0.03, radiusOfStiffness = 0.8, stress' = 3900,
                thickness' = 200, isAdequate = True\<rparr>\<rparr> = ''Corner Loading'' \<and>
   [(''interior'', \<lparr>thickness = ThicknessNum 150, stress = Some 3, ultimateStrength = 4\<rparr>),
    (''edge'', \<lparr>thickness = ThicknessNum 200, stress = Some 3.5, ultimateStrength = 4\<rparr>),
    (''corner'', \<lparr>thickness = ThicknessNum 200, stress = Some 3.9, ultimateStrength = 4\<rparr>)] \<noteq> [] \<and>
   criticalLoadCase (\<lambda>s. None)
     [(''interior'', \<lparr>thickness = ThicknessNum 150, stress = Some 3, ultimateStrength = 4\<rparr>),
      (''edge'', \<lparr>thickness = ThicknessNum 200, stress = Some 3.5, ultimateStrength = 4\<rparr>),
      (''corner'', \<lparr>thickness = ThicknessNum 200, stress = Some 3.9, ultimateStrength = 4\<rparr>)]
     = Some ''edge''"
proof -
  let ?res = "\<lparr>modulus_of = 54, allowableStress_of = 4000,
      interior = \<lparr>equivalentRadius = 0.03, radiusOfStiffness = 0.6, stress' = 3900,
                  thickness' = 150, isAdequate = True\<rparr>,
      edge = \<lparr>equivalentRadius = 0.03, radiusOfStiffness = 0.7, stress' = 3900,
              thickness' = 175, isAdequate = True\<rparr>,
      corner = \<lparr>equivalentRadius = 0.03, radiusOfStiffness = 0.8, stress' = 3900,
                thickness' = 200, isAdequate = True\<rparr>\<rparr>"
  let ?out = "[(''interior'', \<lparr>thickness = ThicknessNum 150, stress = Some 3, ultimateStrength = 4\<rparr>),
    (''edge'', \<lparr>thickness = ThicknessNum 200, stress = Some (3.5::real), ultimateStrength = (4::real)\<rparr>),
    (''corner'', \<lparr>thickness = ThicknessNum 200, stress = Some 3.9, ultimateStrength = 4\<rparr>)]"
  let ?t = "\<lambda>j. [150, 200, 200 :: nat] ! j"
  note g = governing_case [of ?res ?out ?t "\<lambda>s. None"]
  have r: "recommendedMinimumThickness ?res = 200"
    by (simp add: recommendedMinimumThickness_def)
  from g r have a: "governedBy ?res = ''Corner Loading''" by simp
  have ne: "?out \<noteq> []" by simp
  have num: "\<forall>j<length ?out. thickness (snd (?out ! j)) = ThicknessNum (?t j) \<and> 0 < ?t j"
    by (simp add: numeral_3_eq_3 All_less_Suc)
  from g ne num have "\<exists>i<length ?out. criticalLoadCase (\<lambda>s. None) ?out = Some (fst (?out ! i)) \<and>
       (\<forall>j<length ?out. ?t j \<le> ?t i) \<and> (\<forall>j<i. ?t j < ?t i)"
    by blast
  then obtain i where i: "i < length ?out"
    and c: "criticalLoadCase (\<lambda>s. None) ?out = Some (fst (?out ! i))"
    and m: "\<forall>j<length ?out. ?t j \<le> ?t i" and f: "\<forall>j<i. ?t j < ?t i"
    by blast
  from i have "i = 0 \<or> i = 1 \<or> i = 2" by (simp add: numeral_3_eq_3 less_Suc_eq) arith
  then have "i = 1"
  proof (elim disjE)
    assume "i = 0"
    with m [rule_format, of 1] show ?thesis by simp
  next
    assume "i = 2"
    with f [rule_format, of 1] show ?thesis by simp
  qed simp
  with c have "criticalLoadCase (\<lambda>s. None) ?out = Some ''edge''" by simp
  with a ne show ?thesis by blast
qed

subsection \<open>Superposition never fails; zero stiffness\<close>

lemma interpolate_total: "ps \<noteq> [] \<Longrightarrow> \<exists>v. interpolate ps x = Inr v"
  by (cases ps) (auto simp: interpolate_def split: option.splits)

lemma scaleByInfluence_total:
  "ps \<noteq> [] \<Longrightarrow> \<exists>v. scaleByInfluence b ps x = Inr (b * v / 100)"
  using interpolate_total [of ps x] by (auto simp: scaleByInfluence_def)

lemma getStressContribution_total: "\<exists>c. getStressContribution x b ty = Inr c"
  using scaleByInfluence_total [OF curves_ends(1), of b x]
    scaleByInfluence_total [OF curves_ends(2), of b x]
    scaleByInfluence_total [OF curves_ends(3), of b x]
  by (auto simp: getStressContribution_def)

lemma getStressContribution_zero: "getStressContribution x 0 ty = Inr 0"
  using scaleByInfluence_total [OF curves_ends(1), of 0 x]
    scaleByInfluence_total [OF curves_ends(2), of 0 x]
    scaleByInfluence_total [OF curves_ends(3), of 0 x]
  by (auto simp: getStressContribution_def)

lemma addAdjacent_total: "\<exists>s. addAdjacent P h l jt ri re acc d = Inr s"
proof (cases "dist d > 0")
  case False
  then show ?thesis by (simp add: addAdjacent_def)
next
  case True
  obtain a st where p: "(if type d = ''interior'' then
                  (let b_adj = calculateB ri h
                   in (calculateSingleInteriorStress P h l b_adj,
                       ''interior-tangential''))
                else if str_includes (type d) ''edge'' then
                  (let b_adj = calculateB re h
                   in (calculateSingleEdgeStress P h l b_adj jt,
                       ''edge-radial''))
                else (0, '''')) = (a, st)"
    by (meson surj_pair)
  from getStressContribution_total [of "js_divide (dist d) l" a st]
  obtain c where "getStressContribution (js_divide (dist d) l) a st = Inr c" ..
  with True p show ?thesis by (simp add: addAdjacent_def Let_def)
qed

lemma forEachDistance_total: "\<exists>s. forEachDistance P h l jt ri re acc ds = Inr s"
proof (induction ds arbitrary: acc)
  case Nil
  show ?case by simp
next
  case (Cons d ds)
  from addAdjacent_total [of P h l jt ri re acc d]
  obtain s where "addAdjacent P h l jt ri re acc d = Inr s" ..
  with Cons [of s] show ?case by simp
qed

lemma calculateTotalFactoredStress_total:
  "\<exists>s. calculateTotalFactoredStress P h l jt ds lc r = Inr s"
proof -
  let ?base = "(if str_includes lc ''edge'' then
               (let b_base = calculateB (r * sqrt 2) h
                in calculateSingleEdgeStress P h l b_base jt)
             else if lc = ''corner'' then
               calculateSingleCornerStress P h l r jt
             else
               (let b_base = calculateB r h
                in calculateSingleInteriorStress P h l b_base))"
  from forEachDistance_total [of P h l jt r "r * sqrt 2" ?base ds]
  obtain s where "forEachDistance P h l jt r (r * sqrt 2) ?base ds = Inr s" ..
  then show ?thesis by (simp add: calculateTotalFactoredStress_def Let_def)
qed

lemma addAdjacent_zero_stiffness: "addAdjacent P h 0 jt ri re acc d = Inr acc"
proof (cases "dist d > 0")
  case False
  then show ?thesis by (simp add: addAdjacent_def)
next
  case True
  have i: "calculateSingleInteriorStress P h 0 b = 0" for b
    by (simp add: calculateSingleInteriorStress_def)
  have e: "calculateSingleEdgeStress P h 0 b jt = 0" for b
    by (simp add: calculateSingleEdgeStress_def)
  from True show ?thesis
    by (simp add: addAdjacent_def Let_def i e getStressContribution_zero)
qed

lemma forEachDistance_zero_stiffness: "forEachDistance P h 0 jt ri re acc ds = Inr acc"
  by (induction ds) (simp_all add: addAdjacent_zero_stiffness)

lemma calculateTotalFactoredStress_zero_stiffness:
  "calculateTotalFactoredStress P h 0 jt ds lc r = Inr 0"
  by (simp add: calculateTotalFactoredStress_def Let_def forEachDistance_zero_stiffness
      calculateSingleInteriorStress_def calculateSingleEdgeStress_def
      calculateSingleCornerStress_def)

lemma calculateL_zero_modulus: "calculateL 0 h k = 0"
  by (simp add: calculateL_def)

lemma findMinThickness_zero_modulus:
  "findMinThickness lc 0 0 k P jt ds r = Inr \<lparr>thickness = ThicknessNum 100, stress = Some 0\<rparr>"
  unfolding findMinThickness_def
  by (subst findMinThickness_while.simps)
    (simp add: calculateL_zero_modulus calculateTotalFactoredStress_zero_stiffness)

text \<open>
  C2, as amended. For every compressive strength \<open>f'c \<le> 0\<close> the allowable stress is 0 and
  the elastic modulus \<^verbatim>\<open>calculateEc\<close> is 0. With that modulus the radius of relative
  stiffness is 0, every stress is 0 by the guards of the stress functions, and each
  thickness search (any load case, any neighbours) meets the zero allowance at the floor:
  it returns the thickness 100 with the stress 0.
\<close>

theorem nonpositive_strength_search:
  assumes "fc \<le> 0"
  shows "calculateAllowableStress parseFloat fc days reps pts = 0 \<and>
         calculateEc fc = 0 \<and>
         findMinThickness lc (calculateAllowableStress parseFloat fc days reps pts)
             (calculateEc fc) k P jt ds r
           = Inr \<lparr>thickness = ThicknessNum 100, stress = Some 0\<rparr>"
  using assms findMinThickness_zero_modulus [of lc k P jt ds r]
  by (simp add: calculateAllowableStress_def calculateEc_def)

theorem nonpositive_strength_search_witness:
  "(0::real) \<le> 0 \<and>
   calculateAllowableStress (\<lambda>s. None) 0 90 ''< 8000'' 0 = 0 \<and>
   calculateEc 0 = 0 \<and>
   findMinThickness ''interior'' (calculateAllowableStress (\<lambda>s. None) 0 90 ''< 8000'' 0)
       (calculateEc 0) 65 (60 / 9.81) ''Dowel Joints''
       [\<lparr>dist = 800, type = ''interior''\<rparr>, \<lparr>dist = 2700, type = ''interior''\<rparr>]
       (sqrt (125 * 125 / pi))
     = Inr \<lparr>thickness = ThicknessNum 100, stress = Some 0\<rparr>"
proof -
  have h: "(0::real) \<le> 0" by simp
  from h nonpositive_strength_search [OF h, of "\<lambda>s. None" 90 "''< 8000''" 0 "''interior''" 65
      "60 / 9.81" "''Dowel Joints''"
      "[\<lparr>dist = 800, type = ''interior''\<rparr>, \<lparr>dist = 2700, type = ''interior''\<rparr>]"
      "sqrt (125 * 125 / pi)"]
  show ?thesis by blast
qed

text \<open>
  C2 as stated fails: with \<open>f'c = -5\<close> and the rack of the form's default values, the
  interior, edge and corner searches return 100 mm with stress 0, not an inadequate
  result.
\<close>

theorem nonpositive_strength_counterexample:
  "findMinThickness ''interior'' (calculateAllowableStress (\<lambda>s. None) (-5) 90 ''< 8000'' 0)
       (calculateEc (-5)) 65 (60 / 9.81) ''Dowel Joints''
       [\<lparr>dist = 800, type = ''interior''\<rparr>, \<lparr>dist = 2700, type = ''interior''\<rparr>,
        \<lparr>dist = 2700, type = ''interior''\<rparr>]
       (sqrt (125 * 125 / pi))
     = Inr \<lparr>thickness = ThicknessNum 100, stress = Some 0\<rparr> \<and>
   findMinThickness ''edge'' (calculateAllowableStress (\<lambda>s. None) (-5) 90 ''< 8000'' 0)
       (calculateEc (-5)) 65 (60 / 9.81) ''Dowel Joints''
       [\<lparr>dist = 2700, type = ''edge''\<rparr>, \<lparr>dist = 2700, type = ''edge''\<rparr>]
       (sqrt (125 * 125 / pi))
     = Inr \<lparr>thickness = ThicknessNum 100, stress = Some 0\<rparr> \<and>
   findMinThickness ''corner'' (calculateAllowableStress (\<lambda>s. None) (-5) 90 ''< 8000'' 0)
       (calculateEc (-5)) 65 (60 / 9.81) ''Dowel Joints''
       [\<lparr>dist = 800, type = ''edge''\<rparr>, \<lparr>dist = 2700, type = ''edge''\<rparr>]
       (sqrt (125 * 125 / pi))
     = Inr \<lparr>thickness = ThicknessNum 100, stress = Some 0\<rparr>"
  by (simp add: calculateAllowableStress_def calculateEc_def findMinThickness_zero_modulus)

subsection \<open>The thickness searches\<close>

lemma findMinThickness_while_step:
  assumes "calculateTotalFactoredStress P (real h) (calculateL Ec (real h) k) jt ds lc r = Inr s"
    and "h \<le> 800"
  shows "findMinThickness_while lc a Ec k P jt ds r h
           = (if s \<le> a then Inr \<lparr>thickness = ThicknessNum h, stress = Some s\<rparr>
              else findMinThickness_while lc a Ec k P jt ds r (h + 1))"
  using assms by (simp add: findMinThickness_while.simps [of _ _ _ _ _ _ _ _ h])

lemma findMinThickness_while_end:
  "\<not> h \<le> 800 \<Longrightarrow> findMinThickness_while lc a Ec k P jt ds r h
     = Inr \<lparr>thickness = ThicknessStr ''>800'', stress = None\<rparr>"
  by (simp add: findMinThickness_while.simps [of _ _ _ _ _ _ _ _ h])

lemma findMinThickness_while_adequate:
  assumes F: "\<forall>h. calculateTotalFactoredStress P (real h) (calculateL Ec (real h) k) jt ds lc r
                = Inr (S h)"
    and "h0 \<le> h" and "h \<le> 800" and "S h \<le> a" and "\<forall>h'. h0 \<le> h' \<and> h' < h \<longrightarrow> a < S h'"
  shows "findMinThickness_while lc a Ec k P jt ds r h0
           = Inr \<lparr>thickness = ThicknessNum h, stress = Some (S h)\<rparr>"
  using assms(2-)
proof (induction "h - h0" arbitrary: h0)
  case 0
  then have "h0 = h" by simp
  with 0 F findMinThickness_while_step [of P h Ec k jt ds lc r "S h" a] show ?case
    by simp
next
  case (Suc n)
  then have lt: "h0 < h" and "a < S h0" by auto
  with Suc.prems F findMinThickness_while_step [of P h0 Ec k jt ds lc r "S h0" a]
  have "findMinThickness_while lc a Ec k P jt ds r h0
      = findMinThickness_while lc a Ec k P jt ds r (h0 + 1)"
    by simp
  moreover have "findMinThickness_while lc a Ec k P jt ds r (h0 + 1)
      = Inr \<lparr>thickness = ThicknessNum h, stress = Some (S h)\<rparr>"
    using Suc.hyps(2) Suc.prems lt by (intro Suc.hyps(1)) auto
  ultimately show ?case by simp
qed

lemma findMinThickness_while_exhausted:
  assumes F: "\<forall>h. calculateTotalFactoredStress P (real h) (calculateL Ec (real h) k) jt ds lc r
                = Inr (S h)"
    and "\<forall>h'. h0 \<le> h' \<and> h' \<le> 800 \<longrightarrow> a < S h'"
  shows "findMinThickness_while lc a Ec k P jt ds r h0
           = Inr \<lparr>thickness = ThicknessStr ''>800'', stress = None\<rparr>"
  using assms(2)
proof (induction "801 - h0" arbitrary: h0)
  case 0
  then have "\<not> h0 \<le> 800" by simp
  then show ?case by (rule findMinThickness_while_end)
next
  case (Suc n)
  then have le: "h0 \<le> 800" and "a < S h0" by auto
  with F findMinThickness_while_step [of P h0 Ec k jt ds lc r "S h0" a]
  have "findMinThickness_while lc a Ec k P jt ds r h0
      = findMinThickness_while lc a Ec k P jt ds r (h0 + 1)"
    by simp
  moreover have "findMinThickness_while lc a Ec k P jt ds r (h0 + 1)
      = Inr \<lparr>thickness = ThicknessStr ''>800'', stress = None\<rparr>"
    using Suc.hyps(2) Suc.prems by (intro Suc.hyps(1)) auto
  ultimately show ?case by simp
qed

lemma findMinThickness_cases:
  assumes F: "\<forall>h. calculateTotalFactoredStress P (real h) (calculateL Ec (real h) k) jt ds lc r
                = Inr (S h)"
  shows "((\<exists>h. 100 \<le> h \<and> h \<le> 800 \<and> S h \<le> a) \<longrightarrow>
            (\<exists>h. 100 \<le> h \<and> h \<le> 800 \<and> S h \<le> a \<and> (\<forall>h'. 100 \<le> h' \<and> h' < h \<longrightarrow> a < S h') \<and>
                 findMinThickness lc a Ec k P jt ds r
                   = Inr \<lparr>thickness = ThicknessNum h, stress = Some (S h)\<rparr>)) \<and>
         ((\<forall>h. 100 \<le> h \<and> h \<le> 800 \<longrightarrow> a < S h) \<longrightarrow>
            findMinThickness lc a Ec k P jt ds r
              = Inr \<lparr>thickness = ThicknessStr ''>800'', stress = None\<rparr>)"
proof (intro conjI impI)
  assume "\<exists>h. 100 \<le> h \<and> h \<le> 800 \<and> S h \<le> a"
  then obtain h1 where h1: "100 \<le> h1 \<and> h1 \<le> 800 \<and> S h1 \<le> a" ..
  define h where "h = (LEAST h. 100 \<le> h \<and> h \<le> 800 \<and> S h \<le> a)"
  from h1 have h: "100 \<le> h \<and> h \<le> 800 \<and> S h \<le> a"
    unfolding h_def by (rule LeastI)
  have first: "\<forall>h'. 100 \<le> h' \<and> h' < h \<longrightarrow> a < S h'"
  proof (intro allI impI)
    fix h' assume h': "100 \<le> h' \<and> h' < h"
    show "a < S h'"
    proof (rule ccontr)
      assume "\<not> a < S h'"
      with h' h have "100 \<le> h' \<and> h' \<le> 800 \<and> S h' \<le> a" by simp
      then have "h \<le> h'" unfolding h_def by (rule Least_le)
      with h' show False by simp
    qed
  qed
  from findMinThickness_while_adequate [OF F, of 100 h a] h first
  have "findMinThickness lc a Ec k P jt ds r
          = Inr \<lparr>thickness = ThicknessNum h, stress = Some (S h)\<rparr>"
    by (simp add: findMinThickness_def)
  with h first show "\<exists>h. 100 \<le> h \<and> h \<le> 800 \<and> S h \<le> a \<and> (\<forall>h'. 100 \<le> h' \<and> h' < h \<longrightarrow> a < S h') \<and>
      findMinThickness lc a Ec k P jt ds r
        = Inr \<lparr>thickness = ThicknessNum h, stress = Some (S h)\<rparr>"
    by blast
next
  assume "\<forall>h. 100 \<le> h \<and> h \<le> 800 \<longrightarrow> a < S h"
  from findMinThickness_while_exhausted [OF F this]
  show "findMinThickness lc a Ec k P jt ds r
          = Inr \<lparr>thickness = ThicknessStr ''>800'', stress = None\<rparr>"
    by (simp add: findMinThickness_def)
qed

lemma factoredStress_function:
  "\<exists>S. \<forall>h::nat. calculateTotalFactoredStress P (real h) (calculateL Ec (real h) k) jt ds lc r
          = Inr (S h)"
proof -
  have "\<forall>h::nat. \<exists>s. calculateTotalFactoredStress P (real h) (calculateL Ec (real h) k) jt ds lc r
          = Inr s"
    using calculateTotalFactoredStress_total by blast
  then show ?thesis by (rule choice)
qed

lemma fourth_root: "0 \<le> (x::real) \<Longrightarrow> (x ^ 4) powr 0.25 = x"
proof (cases "x = 0")
  case True then show ?thesis by simp
next
  case False
  assume "0 \<le> x"
  with False have pos: "0 < x" by simp
  then have "x powr 4 = x ^ 4" by simp
  then have "(x ^ 4) powr 0.25 = (x powr 4) powr 0.25" by (simp only:)
  also have "\<dots> = x powr (4 * 0.25)" by (rule powr_powr)
  also have "\<dots> = x" using pos by simp
  finally show ?thesis .
qed

lemma fourth_root_ge: "0 \<le> (c::real) \<Longrightarrow> c ^ 4 \<le> x \<Longrightarrow> c \<le> x powr 0.25"
  using powr_mono2 [of "0.25" "c ^ 4" x] fourth_root [of c] by simp



lemma ln_ratio_lower: 
  assumes "0 < (b::real)" and "b \<le> l"
  shows "1 - b / l \<le> ln (l / b)"
proof -
  from assms have "0 < l" by linarith
  with assms have "0 < b / l" by simp
  from ln_le_minus_one [OF this] have "ln (b / l) \<le> b / l - 1" .
  moreover from assms \<open>0 < l\<close> have "ln (b / l) = - ln (l / b)" by (simp add: ln_div)
  ultimately show ?thesis by simp
qed

lemma sublist_edge_interior: "\<not> str_includes ''interior'' ''edge''"
  by (simp add: str_includes_def sublist_Cons_right)

lemma total_interior_alone:
  "calculateTotalFactoredStress P h l jt [] ''interior'' r
     = Inr (calculateSingleInteriorStress P h l (calculateB r h) * 1.5)"
  by (simp add: calculateTotalFactoredStress_def sublist_edge_interior LOAD_FACTOR_def)

lemma heavy_L:
  assumes "100 \<le> h"
  shows "400 \<le> calculateL 30000 h 50"
proof -
  from assms have "100 ^ 3 \<le> h ^ 3" by (intro power_mono) simp_all
  then have "(400::real) ^ 4 \<le> (30000 * h ^ 3 * 1000) / (12 * (1 - 0.15 ^ 2) * 50)"
    by (simp add: field_simps)
  from fourth_root_ge [OF _ this] assms show ?thesis
    by (simp add: calculateL_def POISSON_RATIO_def Let_def)
qed

lemma heavy_B:
  assumes "100 \<le> h" and "h \<le> 800"
  shows "0 < calculateB 70 h \<and> calculateB 70 h \<le> 349"
proof -
  have "sqrt (1.6 * 70 * 70 + h * h) \<le> h + 89"
    using assms by (intro real_le_lsqrt) (simp_all add: power2_eq_square algebra_simps)
  moreover have "h < sqrt (1.6 * 70 * 70 + h * h)"
    using assms by (intro real_less_rsqrt) (simp add: power2_eq_square)
  ultimately show ?thesis using assms by (simp add: calculateB_def)
qed


lemma heavy_stress:
  assumes h: "100 \<le> h" "h \<le> 800"
  shows "5 < calculateSingleInteriorStress 10000 h (calculateL 30000 h 50) (calculateB 70 h) * 1.5"
proof -
  let ?l = "calculateL 30000 h 50" and ?b = "calculateB 70 h"
  from heavy_L [OF h(1)] have l: "400 \<le> ?l" .
  from heavy_B [OF h] have b: "0 < ?b" "?b \<le> 349" by simp_all
  from b l have "?b / ?l \<le> 349 / 400" by (intro frac_le) simp_all
  moreover from b l have "1 - ?b / ?l \<le> ln (?l / ?b)" by (intro ln_ratio_lower) simp_all
  ultimately have ln: "51 / 400 \<le> ln (?l / ?b)" by simp
  from h have "h * h \<le> 800 * 800" by (intro mult_mono) simp_all
  with h have c: "48 \<le> 0.275 * (1 + 0.15) * (10000 * 9810) / (h * h)"
    by (simp add: field_simps)
  from mult_mono [OF c ln] have "48 * (51 / 400) \<le>
      0.275 * (1 + 0.15) * (10000 * 9810) / (h * h) * ln (?l / ?b)" by simp
  then have "4 < 0.275 * (1 + 0.15) * (10000 * 9810) / (h * h) * ln (?l / ?b)" by simp
  with h b l show ?thesis
    by (simp add: calculateSingleInteriorStress_def POISSON_RATIO_def Let_def)
qed

text \<open>
  C1 as stated fails in the exhausted case of \<^verbatim>\<open>findMinThickness\<close>: under a load of
  10000 tonnes on a contact radius of 70 mm no thickness up to 800 mm is adequate, and the
  result carries neither the last thickness tried (800) nor the last stress.
\<close>

theorem search_exhausted_counterexample:
  "findMinThickness ''interior'' 5 30000 50 10000 ''Dowel Joints'' [] 70
     = Inr \<lparr>thickness = ThicknessStr ''>800'', stress = None\<rparr>"
proof -
  let ?S = "\<lambda>h::nat. calculateSingleInteriorStress 10000 (real h) (calculateL 30000 (real h) 50)
                (calculateB 70 (real h)) * 1.5"
  have F: "\<forall>h. calculateTotalFactoredStress 10000 (real h) (calculateL 30000 (real h) 50)
             ''Dowel Joints'' [] ''interior'' 70 = Inr (?S h)"
    by (simp add: total_interior_alone)
  have "\<forall>h'. 100 \<le> h' \<and> h' \<le> 800 \<longrightarrow> 5 < ?S h'"
    using heavy_stress by simp
  from findMinThickness_while_exhausted [OF F this] show ?thesis
    by (simp add: findMinThickness_def)
qed

text \<open>
  C1, as amended. For the search of the rack and wheel calculator
  (\<^verbatim>\<open>findMinThickness\<close>, floor 100, step 1, ceiling 800), every load case and every
  input: the factored stress is computed at every thickness without an error; if \<open>h\<close> is
  the first thickness from 100 to 800 whose factored stress \<open>s\<close> is at most the allowable
  stress, the search returns \<open>h\<close> with \<open>s\<close>; if no thickness from 100 to 800 is adequate,
  it returns the string \<^verbatim>\<open>'>800'\<close> as thickness and \<^verbatim>\<open>null\<close> as stress. The search
  of the point-load calculator (\<^verbatim>\<open>calculateThicknessForPosition\<close>), whose loop passes
  the two radii to \<^verbatim>\<open>calculateStress\<close> in the opposite order of its signature and of
  the call after the loop, is not part of the statement.
\<close>

theorem thickness_search_result:
  "(\<forall>h::nat. \<exists>s. calculateTotalFactoredStress P (real h) (calculateL Ec (real h) k) jt ds lc r
       = Inr s) \<and>
   (\<forall>h s. 100 \<le> h \<and> h \<le> 800 \<and>
       calculateTotalFactoredStress P (real h) (calculateL Ec (real h) k) jt ds lc r = Inr s \<and>
       s \<le> a \<and>
       (\<forall>h' s'. 100 \<le> h' \<and> h' < h \<and>
          calculateTotalFactoredStress P (real h') (calculateL Ec (real h') k) jt ds lc r = Inr s'
          \<longrightarrow> a < s') \<longrightarrow>
       findMinThickness lc a Ec k P jt ds r
         = Inr \<lparr>thickness = ThicknessNum h, stress = Some s\<rparr>) \<and>
   ((\<forall>h s. 100 \<le> h \<and> h \<le> 800 \<and>
       calculateTotalFactoredStress P (real h) (calculateL Ec (real h) k) jt ds lc r = Inr s
       \<longrightarrow> a < s) \<longrightarrow>
    findMinThickness lc a Ec k P jt ds r
      = Inr \<lparr>thickness = ThicknessStr ''>800'', stress = None\<rparr>)"
proof -
  from factoredStress_function [of P Ec k jt ds lc r] obtain S
    where F: "\<forall>h::nat. calculateTotalFactoredStress P (real h) (calculateL Ec (real h) k) jt ds lc r
                = Inr (S h)" ..
  have total: "\<forall>h::nat. \<exists>s. calculateTotalFactoredStress P (real h) (calculateL Ec (real h) k) jt
                 ds lc r = Inr s"
    using F by blast
  have adequate: "\<forall>h s. 100 \<le> h \<and> h \<le> 800 \<and>
       calculateTotalFactoredStress P (real h) (calculateL Ec (real h) k) jt ds lc r = Inr s \<and>
       s \<le> a \<and>
       (\<forall>h' s'. 100 \<le> h' \<and> h' < h \<and>
          calculateTotalFactoredStress P (real h') (calculateL Ec (real h') k) jt ds lc r = Inr s'
          \<longrightarrow> a < s') \<longrightarrow>
       findMinThickness lc a Ec k P jt ds r
         = Inr \<lparr>thickness = ThicknessNum h, stress = Some s\<rparr>"
  proof (intro allI impI, elim conjE)
    fix h s
    assume h: "100 \<le> h" "h \<le> 800" and s: "s \<le> a"
      and e: "calculateTotalFactoredStress P (real h) (calculateL Ec (real h) k) jt ds lc r = Inr s"
      and first: "\<forall>h' s'. 100 \<le> h' \<and> h' < h \<and>
          calculateTotalFactoredStress P (real h') (calculateL Ec (real h') k) jt ds lc r = Inr s'
          \<longrightarrow> a < s'"
    from e F have sS: "s = S h" by simp
    from first F have "\<forall>h'. 100 \<le> h' \<and> h' < h \<longrightarrow> a < S h'" by blast
    from findMinThickness_while_adequate [OF F h(1) h(2) _ this] s sS
    show "findMinThickness lc a Ec k P jt ds r
            = Inr \<lparr>thickness = ThicknessNum h, stress = Some s\<rparr>"
      by (simp add: findMinThickness_def)
  qed
  have exhausted: "(\<forall>h s. 100 \<le> h \<and> h \<le> 800 \<and>
       calculateTotalFactoredStress P (real h) (calculateL Ec (real h) k) jt ds lc r = Inr s
       \<longrightarrow> a < s) \<longrightarrow>
    findMinThickness lc a Ec k P jt ds r
      = Inr \<lparr>thickness = ThicknessStr ''>800'', stress = None\<rparr>"
  proof
    assume "\<forall>h s. 100 \<le> h \<and> h \<le> 800 \<and>
       calculateTotalFactoredStress P (real h) (calculateL Ec (real h) k) jt ds lc r = Inr s
       \<longrightarrow> a < s"
    with F have "\<forall>h'. 100 \<le> h' \<and> h' \<le> 800 \<longrightarrow> a < S h'" by blast
    from findMinThickness_while_exhausted [OF F this]
    show "findMinThickness lc a Ec k P jt ds r
            = Inr \<lparr>thickness = ThicknessStr ''>800'', stress = None\<rparr>"
      by (simp add: findMinThickness_def)
  qed
  from total adequate exhausted show ?thesis by (intro conjI)
qed

subsection \<open>Stress against thickness for an isolated load\<close>

text \<open>
  The radius of relative stiffness grows as \<open>h\<close> to the power \<open>3/4\<close>, the equivalent
  contact radius is non-decreasing in \<open>h\<close> inside each of its two branches, and the
  three single-load formulas divide by \<open>h\<^sup>2\<close>. The lemmas below turn this into strict
  monotonicity of each formula as long as its clamp at zero is not reached.
\<close>


lemma calculateL_pos:
  assumes "0 < Ec" and "0 < k" and "0 < h"
  shows "0 < calculateL Ec h k"
  using assms by (simp add: calculateL_def POISSON_RATIO_def Let_def power2_eq_square)

lemma ln_calculateL:
  assumes "0 < Ec" and "0 < k" and "0 < h"
  shows "ln (calculateL Ec h k) = 0.25 * (ln (Ec * 1000 / (12 * (1 - 0.15 ^ 2) * k)) + 3 * ln h)"
proof -
  let ?c = "Ec * 1000 / (12 * (1 - 0.15 ^ 2) * k)"
  from assms have c: "0 < ?c" by (simp add: power2_eq_square)
  have "Ec * h ^ 3 * 1000 / (12 * (1 - 0.15 ^ 2) * k) = ?c * h ^ 3" by simp
  with assms have "calculateL Ec h k = (?c * h ^ 3) powr 0.25"
    by (simp only: calculateL_def POISSON_RATIO_def Let_def) simp
  also have "ln \<dots> = 0.25 * ln (?c * h ^ 3)" by (rule ln_powr)
  also from c assms have "ln (?c * h ^ 3) = ln ?c + ln (h ^ 3)" by (intro ln_mult_pos) simp_all
  also have "ln (h ^ 3) = 3 * ln h" using ln_realpow [of h 3] by simp
  finally show ?thesis .
qed

lemma ln_calculateL_step:
  assumes "0 < Ec" and "0 < k" and "0 < h1" and "0 < h2"
  shows "ln (calculateL Ec h2 k) - ln (calculateL Ec h1 k) = 3 / 4 * (ln h2 - ln h1)"
  using ln_calculateL [OF assms(1,2,3)] ln_calculateL [OF assms(1,2,4)] by simp

lemma log_stress_decreasing:
  fixes C h1 h2 l1 l2 b1 b2 :: real
  assumes C: "0 < C" and h: "0 < h1" "h1 < h2" and b: "0 < b1" "b1 \<le> b2"
    and l: "0 < l1" "0 < l2"
    and L: "ln l2 - ln l1 = 3 / 4 * (ln h2 - ln h1)"
    and big: "1.6 * b1 \<le> l1"
  shows "C / (h2 * h2) * ln (l2 / b2) < C / (h1 * h1) * ln (l1 / b1) \<and>
         0 < C / (h1 * h1) * ln (l1 / b1)"
proof -
  let ?a1 = "ln (l1 / b1)" and ?a2 = "ln (l2 / b2)"
  from b big have "b1 \<le> l1" by linarith
  from ln_ratio_lower [OF b(1) this] have "1 - b1 / l1 \<le> ?a1" .
  moreover from b l big have "b1 / l1 \<le> 1 / 1.6" by (simp add: field_simps)
  ultimately have a1: "3 / 8 \<le> ?a1" by simp
  from h have h2: "0 < h2" by linarith
  from b have b2: "0 < b2" by linarith
  have "ln (h2 / h1) \<le> h2 / h1 - 1" using h h2 by (intro ln_le_minus_one) simp
  with h h2 have t: "ln h2 - ln h1 \<le> (h2 - h1) / h1"
    by (simp add: ln_div field_simps)
  from b b2 have lnb: "ln b1 \<le> ln b2" by simp
  from l b have e1: "?a1 = ln l1 - ln b1" by (intro ln_divide_pos)
  from l b2 have e2: "?a2 = ln l2 - ln b2" by (intro ln_divide_pos)
  from e1 e2 lnb L have "?a2 \<le> ?a1 + 3 / 4 * (ln h2 - ln h1)"
    by linarith
  moreover have "z \<le> w + 3 / 4 * x" if "y \<le> x" "z \<le> w + 3 / 4 * y" for x y z w :: real
    using that by simp
  ultimately have a2: "?a2 \<le> ?a1 + 3 / 4 * ((h2 - h1) / h1)" using t by blast
  have "?a2 * (h1 * h1) \<le> (?a1 + 3 / 4 * ((h2 - h1) / h1)) * (h1 * h1)"
    using a2 h by (intro mult_right_mono) simp_all
  also have "\<dots> = ?a1 * (h1 * h1) + 3 / 4 * (h2 - h1) * h1"
    using h by (simp add: field_simps)
  also have "\<dots> < ?a1 * (h2 * h2)"
  proof -
    have "3 / 4 * (h2 - h1) * h1 = 3 / 8 * ((h2 - h1) * (2 * h1))" by simp
    also have "\<dots> < 3 / 8 * ((h2 - h1) * (h2 + h1))"
      using h by (intro mult_strict_left_mono) simp_all
    also have "\<dots> \<le> ?a1 * ((h2 - h1) * (h2 + h1))"
      using a1 h by (intro mult_right_mono) simp_all
    finally have "3 / 4 * (h2 - h1) * h1 < ?a1 * ((h2 - h1) * (h2 + h1))" .
    then show ?thesis by (simp add: algebra_simps)
  qed
  finally have key: "?a2 * (h1 * h1) < ?a1 * (h2 * h2)" .
  from h h2 have "?a2 / (h2 * h2) < ?a1 / (h1 * h1)"
    using key by (simp add: field_simps)
  with C have "C * (?a2 / (h2 * h2)) < C * (?a1 / (h1 * h1))"
    by (intro mult_strict_left_mono)
  moreover from a1 h C have "0 < C / (h1 * h1) * ?a1" by simp
  ultimately show ?thesis by simp
qed

lemma calculateB_mono:
  assumes R: "0 < R" and h: "0 < h1" "h1 < h2"
    and regime: "1.72 * h2 \<le> R \<or> 1.16 * R \<le> h1"
  shows "0 < calculateB R h1 \<and> calculateB R h1 \<le> calculateB R h2"
  using regime
proof
  assume "1.72 * h2 \<le> R"
  with R h show ?thesis by (simp add: calculateB_def)
next
  assume r: "1.16 * R \<le> h1"
  let ?s1 = "sqrt (1.6 * R * R + h1 * h1)" and ?s2 = "sqrt (1.6 * R * R + h2 * h2)"
  from h have h2: "0 < h2" by linarith
  have RR: "1.16 * 1.16 * (R * R) \<le> h * h" if "1.16 * R \<le> h" for h
  proof -
    from that R have "(1.16 * R) * (1.16 * R) \<le> h * h" by (intro mult_mono) simp_all
    then show ?thesis by (simp add: algebra_simps)
  qed
  have bound: "0.675 * sqrt (1.6 * R * R + h * h) \<le> h" if "1.16 * R \<le> h" for h
  proof -
    from R have "0 < 1.16 * R" by simp
    with that have hp: "0 < h" by linarith
    have aux: "1.6 * X + Y \<le> Y / (0.675 * 0.675)" if "1.16 * 1.16 * X \<le> Y" "0 \<le> X"
      for X Y :: real
      using that by (simp add: field_simps)
    from aux [OF RR [OF that]] have "1.6 * R * R + h * h \<le> (h / 0.675)\<^sup>2"
      by (simp add: power2_eq_square)
    with hp have "sqrt (1.6 * R * R + h * h) \<le> h / 0.675"
      by (intro real_le_lsqrt) simp_all
    then show ?thesis by (simp add: field_simps)
  qed
  from r h have r2: "1.16 * R \<le> h2" by simp
  have s1: "h1 < ?s1" using R h by (intro real_less_rsqrt) (simp add: power2_eq_square)
  have s2: "h2 < ?s2" using R h2 by (intro real_less_rsqrt) (simp add: power2_eq_square)
  have sq: "?s2 * ?s2 - ?s1 * ?s1 = (h2 - h1) * (h2 + h1)"
  proof -
    have "0 \<le> 1.6 * R * R + h1 * h1" "0 \<le> 1.6 * R * R + h2 * h2" using R by simp_all
    then have "?s1 * ?s1 = 1.6 * R * R + h1 * h1" "?s2 * ?s2 = 1.6 * R * R + h2 * h2"
      by simp_all
    then show ?thesis by (simp add: algebra_simps)
  qed
  from bound [OF r] bound [OF r2] have "0.675 * (?s1 + ?s2) \<le> h1 + h2" by (simp add: algebra_simps)
  with h have "(h2 - h1) * (0.675 * (?s1 + ?s2)) \<le> (h2 - h1) * (h2 + h1)"
    by (intro mult_left_mono) simp_all
  with sq have "(0.675 * (h2 - h1)) * (?s2 + ?s1) \<le> (?s2 - ?s1) * (?s2 + ?s1)"
    by (simp add: algebra_simps)
  moreover from s1 s2 h have "0 < ?s2 + ?s1" by linarith
  ultimately have diff: "0.675 * (h2 - h1) \<le> ?s2 - ?s1"
    by (simp only: mult_le_cancel_right_pos)
  from r R h have n1: "\<not> 1.72 * h1 \<le> R" by simp
  from r2 R h2 have n2: "\<not> 1.72 * h2 \<le> R" by simp
  from n1 n2 R h h2 have "calculateB R h1 = ?s1 - 0.675 * h1" "calculateB R h2 = ?s2 - 0.675 * h2"
    by (simp_all add: calculateB_def)
  with diff s1 h show ?thesis by simp
qed






lemma clamp_max: "(x::real) = y \<Longrightarrow> (if x > 0 then x else 0) = max 0 y"
  by (simp add: max_def)

lemma interior_stress_form:
  assumes "0 < h" and "0 < l" and "0 < b"
  shows "calculateSingleInteriorStress P h l b
           = max 0 (0.275 * (1 + 0.15) * (P * 9810) / (h * h) * ln (l / b))"
proof -
  from assms have g: "(h \<le> 0 \<or> l \<le> 0 \<or> b \<le> 0) = False" by simp
  show ?thesis
    unfolding calculateSingleInteriorStress_def Let_def g if_False
    by (rule clamp_max) (simp only: POISSON_RATIO_def)
qed



lemma clamp_decreasing: "(v2::real) < v1 \<and> 0 < v1 \<Longrightarrow> max 0 v2 * 1.5 < max 0 v1 * 1.5"
  by (simp add: max_def)

lemma log_case_decreasing:
  assumes pos: "0 < Ec" "0 < k" "0 < C" "0 < R" "0 < h1" "h1 < h2"
    and regime: "1.72 * h2 \<le> R \<or> 1.16 * R \<le> h1"
    and big: "1.6 * calculateB R h1 \<le> calculateL Ec h1 k"
  shows "max 0 (C / (h2 * h2) * ln (calculateL Ec h2 k / calculateB R h2)) * 1.5
           < max 0 (C / (h1 * h1) * ln (calculateL Ec h1 k / calculateB R h1)) * 1.5"
proof -
  from pos have h2: "0 < h2" by linarith
  from calculateB_mono [OF pos(4,5,6) regime]
  have b: "0 < calculateB R h1" "calculateB R h1 \<le> calculateB R h2" by simp_all
  from pos h2 have l: "0 < calculateL Ec h1 k" "0 < calculateL Ec h2 k"
    by (simp_all add: calculateL_pos)
  from ln_calculateL_step [OF pos(1,2,5) h2]
  have L: "ln (calculateL Ec h2 k) - ln (calculateL Ec h1 k) = 3 / 4 * (ln h2 - ln h1)" by simp
  from log_stress_decreasing [OF pos(3,5,6) b l L big]
  show ?thesis by (rule clamp_decreasing)
qed




lemma light_B:
  assumes "100 \<le> h" and "h \<le> 125"
  shows "calculateB 70 h \<le> 77"
proof -
  have "sqrt (1.6 * 70 * 70 + h * h) \<le> h + 36"
    using assms by (intro real_le_lsqrt) (simp_all add: power2_eq_square algebra_simps)
  with assms show ?thesis by (simp add: calculateB_def)
qed

lemma light_stress_decreasing:
  assumes "100 \<le> h" and "h < 125"
  shows "calculateSingleInteriorStress 6 125 (calculateL 30000 125 50) (calculateB 70 125) * 1.5
           < calculateSingleInteriorStress 6 h (calculateL 30000 h 50) (calculateB 70 h) * 1.5"
proof -
  from assms have h: "0 < h" by simp
  from assms light_B [of h] have "calculateB 70 h \<le> 77" by simp
  moreover from assms have "400 \<le> calculateL 30000 h 50" by (intro heavy_L)
  ultimately have big: "1.6 * calculateB 70 h \<le> calculateL 30000 h 50" by simp
  from assms have regime: "1.72 * 125 \<le> (70::real) \<or> 1.16 * 70 \<le> h" by simp
  have b: "0 < calculateB 70 h" "0 < calculateB 70 125"
    using heavy_B [of h] heavy_B [of 125] assms by simp_all
  have l: "0 < calculateL 30000 h 50" "0 < calculateL 30000 125 50"
    using h by (simp_all add: calculateL_pos)
  have "max 0 (0.275 * (1 + 0.15) * (6 * 9810) / (125 * 125)
                 * ln (calculateL 30000 125 50 / calculateB 70 125)) * 1.5
          < max 0 (0.275 * (1 + 0.15) * (6 * 9810) / (h * h)
                 * ln (calculateL 30000 h 50 / calculateB 70 h)) * 1.5"
    using assms h regime big by (intro log_case_decreasing) simp_all
  moreover have "calculateSingleInteriorStress 6 125 (calculateL 30000 125 50) (calculateB 70 125)
      = max 0 (0.275 * (1 + 0.15) * (6 * 9810) / (125 * 125)
                 * ln (calculateL 30000 125 50 / calculateB 70 125))"
    using l b by (intro interior_stress_form) simp_all
  moreover have "calculateSingleInteriorStress 6 h (calculateL 30000 h 50) (calculateB 70 h)
      = max 0 (0.275 * (1 + 0.15) * (6 * 9810) / (h * h)
                 * ln (calculateL 30000 h 50 / calculateB 70 h))"
    using l b h by (intro interior_stress_form) simp_all
  ultimately show ?thesis by (simp only:)
qed

theorem thickness_search_result_witness:
  "findMinThickness ''interior''
       (calculateSingleInteriorStress 6 125 (calculateL 30000 125 50) (calculateB 70 125) * 1.5)
       30000 50 6 ''Dowel Joints'' [] 70
     = Inr \<lparr>thickness = ThicknessNum 125,
            stress = Some (calculateSingleInteriorStress 6 125 (calculateL 30000 125 50)
                             (calculateB 70 125) * 1.5)\<rparr> \<and>
   findMinThickness ''interior'' 5 30000 50 10000 ''Dowel Joints'' [] 70
     = Inr \<lparr>thickness = ThicknessStr ''>800'', stress = None\<rparr>"
proof -
  let ?a = "calculateSingleInteriorStress 6 125 (calculateL 30000 125 50) (calculateB 70 125) * 1.5"
  \<comment> \<open>the adequate case: the trials from 100 to 124 fail, the trial at 125 succeeds\<close>
  note t1 = thickness_search_result [where P = 6 and Ec = 30000 and k = 50
      and jt = "''Dowel Joints''" and ds = "[]" and lc = "''interior''" and r = 70 and a = ?a]
  have first: "\<forall>h' s'. 100 \<le> h' \<and> h' < (125::nat) \<and>
          calculateTotalFactoredStress 6 (real h') (calculateL 30000 (real h') 50)
            ''Dowel Joints'' [] ''interior'' 70 = Inr s'
          \<longrightarrow> ?a < s'"
  proof (intro allI impI, elim conjE)
    fix h' :: nat and s' :: real
    assume h: "100 \<le> h'" "h' < 125"
      and e: "calculateTotalFactoredStress 6 (real h') (calculateL 30000 (real h') 50)
                ''Dowel Joints'' [] ''interior'' 70 = Inr s'"
    from h have "?a < calculateSingleInteriorStress 6 (real h') (calculateL 30000 (real h') 50)
                   (calculateB 70 (real h')) * 1.5"
      by (intro light_stress_decreasing) simp_all
    moreover from e have "s' = calculateSingleInteriorStress 6 (real h')
        (calculateL 30000 (real h') 50) (calculateB 70 (real h')) * 1.5"
      by (simp only: total_interior_alone sum.inject)
    ultimately show "?a < s'" by (simp only:)
  qed
  have "calculateTotalFactoredStress 6 (real (125::nat)) (calculateL 30000 (real (125::nat)) 50)
          ''Dowel Joints'' [] ''interior'' 70 = Inr ?a"
    by (simp add: total_interior_alone)
  with first have "(100::nat) \<le> 125 \<and> (125::nat) \<le> 800 \<and>
       calculateTotalFactoredStress 6 (real (125::nat)) (calculateL 30000 (real (125::nat)) 50)
         ''Dowel Joints'' [] ''interior'' 70 = Inr ?a \<and>
       ?a \<le> ?a \<and>
       (\<forall>h' s'. 100 \<le> h' \<and> h' < (125::nat) \<and>
          calculateTotalFactoredStress 6 (real h') (calculateL 30000 (real h') 50)
            ''Dowel Joints'' [] ''interior'' 70 = Inr s'
          \<longrightarrow> ?a < s')"
    by simp
  with t1 have a: "findMinThickness ''interior'' ?a 30000 50 6 ''Dowel Joints'' [] 70
     = Inr \<lparr>thickness = ThicknessNum 125, stress = Some ?a\<rparr>"
    by blast
  \<comment> \<open>the exhausted case\<close>
  note t2 = thickness_search_result [where P = 10000 and Ec = 30000 and k = 50
      and jt = "''Dowel Joints''" and ds = "[]" and lc = "''interior''" and r = 70 and a = 5]
  have "\<forall>h s. 100 \<le> h \<and> h \<le> 800 \<and>
       calculateTotalFactoredStress 10000 (real h) (calculateL 30000 (real h) 50) ''Dowel Joints''
         [] ''interior'' 70 = Inr s
       \<longrightarrow> 5 < s"
  proof (intro allI impI, elim conjE)
    fix h :: nat and s :: real
    assume h: "100 \<le> h" "h \<le> 800"
      and e: "calculateTotalFactoredStress 10000 (real h) (calculateL 30000 (real h) 50)
                ''Dowel Joints'' [] ''interior'' 70 = Inr s"
    from h have "5 < calculateSingleInteriorStress 10000 (real h) (calculateL 30000 (real h) 50)
                   (calculateB 70 (real h)) * 1.5"
      by (intro heavy_stress) simp_all
    moreover from e have "s = calculateSingleInteriorStress 10000 (real h)
        (calculateL 30000 (real h) 50) (calculateB 70 (real h)) * 1.5"
      by (simp only: total_interior_alone sum.inject)
    ultimately show "5 < s" by (simp only:)
  qed
  with t2 have b: "findMinThickness ''interior'' 5 30000 50 10000 ''Dowel Joints'' [] 70
     = Inr \<lparr>thickness = ThicknessStr ''>800'', stress = None\<rparr>"
    by blast
  from a b show ?thesis by (intro conjI)
qed

end
